theory Spec2Isabelle
  imports Complex_Main
begin

section \<open>Errors and arrays\<close>

text \<open>
  The exceptions the modelled functions of \<^verbatim>\<open>pysb/gabi_sampling.py\<close> can raise.
  A function that can raise returns \<open>error + 'a\<close>, with \<open>Inl\<close> for the exception.
  \<open>SolverError\<close> stands for what the integrator and the spline fit of scipy raise.
\<close>

datatype error =
    NameError string
  | IndexError
  | ValueError
  | TypeError
  | SolverError

text \<open>
  A two-dimensional numpy array is the list of its rows; numpy arrays are rectangular,
  which the theorems state as a hypothesis on the shape. \<open>ncols\<close> is \<^verbatim>\<open>shape[1]\<close>,
  read off the first row (an array without rows is taken to have no columns).
\<close>

definition ncols :: "'a list list \<Rightarrow> nat" where
  "ncols M = (case M of [] \<Rightarrow> 0 | r # _ \<Rightarrow> length r)"

definition has_shape :: "nat \<Rightarrow> nat \<Rightarrow> 'a list list \<Rightarrow> bool" where
  "has_shape n m M = (length M = n \<and> list_all (\<lambda>r. length r = m) M)"

definition column :: "'a list list \<Rightarrow> nat \<Rightarrow> 'a list" where
  \<comment> \<open>\<^verbatim>\<open>M[:, i]\<close>\<close>
  "column M i = map (\<lambda>r. r ! i) M"

section \<open>Floating-point values\<close>

text \<open>
  A Python float or numpy \<^verbatim>\<open>float64\<close> entry is a finite real, an infinity or NaN. The
  model is an idealisation: arithmetic on finite values is exact (no rounding, no
  overflow to infinity) and the two zeros are one. What it keeps is how the special
  values arise and propagate: a division by zero gives an infinity or NaN where Python's
  numpy gives one, and NaN is absorbing.
\<close>

datatype fl = Fin real | PInf | NInf | NaN

fun isinf :: "fl \<Rightarrow> bool" where
  "isinf PInf = True"
| "isinf NInf = True"
| "isinf _ = False"

fun isnan :: "fl \<Rightarrow> bool" where
  "isnan NaN = True"
| "isnan _ = False"


fun fsign :: "fl \<Rightarrow> real" where
  "fsign (Fin a) = sgn a"
| "fsign PInf = 1"
| "fsign NInf = - 1"
| "fsign NaN = 0"

definition inf_of_sign :: "real \<Rightarrow> fl" where
  \<comment> \<open>the infinity of a sign; no sign (zero times infinity, zero by zero) is NaN\<close>
  "inf_of_sign s = (if 0 < s then PInf else if s < 0 then NInf else NaN)"

fun fneg :: "fl \<Rightarrow> fl" where
  "fneg (Fin a) = Fin (- a)"
| "fneg PInf = NInf"
| "fneg NInf = PInf"
| "fneg NaN = NaN"

fun fadd :: "fl \<Rightarrow> fl \<Rightarrow> fl" where
  "fadd NaN _ = NaN"
| "fadd _ NaN = NaN"
| "fadd (Fin a) (Fin b) = Fin (a + b)"
| "fadd PInf NInf = NaN"
| "fadd NInf PInf = NaN"
| "fadd PInf _ = PInf"
| "fadd _ PInf = PInf"
| "fadd NInf _ = NInf"
| "fadd _ NInf = NInf"

definition fsub :: "fl \<Rightarrow> fl \<Rightarrow> fl" where
  "fsub a b = fadd a (fneg b)"

fun fmul :: "fl \<Rightarrow> fl \<Rightarrow> fl" where
  "fmul NaN _ = NaN"
| "fmul _ NaN = NaN"
| "fmul (Fin a) (Fin b) = Fin (a * b)"
| "fmul x y = inf_of_sign (fsign x * fsign y)"

fun fdiv :: "fl \<Rightarrow> fl \<Rightarrow> fl" where
  "fdiv NaN _ = NaN"
| "fdiv _ NaN = NaN"
| "fdiv (Fin a) (Fin b) = (if b = 0 then inf_of_sign (sgn a) else Fin (a / b))"
| "fdiv (Fin a) _ = Fin 0"
| "fdiv x (Fin b) = inf_of_sign (fsign x * (if b < 0 then - 1 else 1))"
| "fdiv _ _ = NaN"

text \<open>
  \<^verbatim>\<open>x ** y\<close> and \<^verbatim>\<open>pow(x, y)\<close> on floats, with the special cases of C's \<^verbatim>\<open>pow\<close>:
  anything to the power zero and one to any power are 1, also for NaN; a negative base
  has a power only for an integer exponent.
\<close>

definition is_int :: "real \<Rightarrow> bool" where
  "is_int y = (of_int \<lfloor>y\<rfloor> = y)"

fun fpow :: "fl \<Rightarrow> fl \<Rightarrow> fl" where
  "fpow (Fin x) (Fin y) =
     (if y = 0 \<or> x = 1 then Fin 1
      else if x = 0 then (if 0 < y then Fin 0 else PInf)
      else if is_int y then Fin (x powi \<lfloor>y\<rfloor>)
      else if 0 < x then Fin (x powr y)
      else NaN)"
| "fpow x (Fin y) =
     (if y = 0 then Fin 1
      else if x = NaN then NaN
      else if y < 0 then Fin 0
      else if x = NInf \<and> is_int y \<and> odd \<lfloor>y\<rfloor> then NInf
      else PInf)"
| "fpow (Fin x) y =
     (if x = 1 then Fin 1
      else if y = NaN then NaN
      else if \<bar>x\<bar> = 1 then Fin 1
      else if (\<bar>x\<bar> < 1) = (y = NInf) then PInf
      else Fin 0)"
| "fpow NaN _ = NaN"
| "fpow _ NaN = NaN"
| "fpow _ PInf = PInf"
| "fpow _ NInf = Fin 0"

text \<open>
  \<^verbatim>\<open>numpy.max\<close> and \<^verbatim>\<open>numpy.min\<close> of a row: NaN if the row holds one; a row of no entries
  has neither (numpy raises ValueError).
\<close>

fun fle :: "fl \<Rightarrow> fl \<Rightarrow> bool" where
  "fle NaN _ = False"
| "fle _ NaN = False"
| "fle NInf _ = True"
| "fle _ PInf = True"
| "fle (Fin a) (Fin b) = (a \<le> b)"
| "fle _ _ = False"

definition fmax :: "fl \<Rightarrow> fl \<Rightarrow> fl" where
  "fmax a b = (if isnan a \<or> isnan b then NaN else if fle a b then b else a)"

definition fmin :: "fl \<Rightarrow> fl \<Rightarrow> fl" where
  "fmin a b = (if isnan a \<or> isnan b then NaN else if fle a b then a else b)"

definition amax :: "fl list \<Rightarrow> error + fl" where
  "amax xs = (case xs of [] \<Rightarrow> Inl ValueError | x # r \<Rightarrow> Inr (foldl fmax x r))"

definition amin :: "fl list \<Rightarrow> error + fl" where
  "amin xs = (case xs of [] \<Rightarrow> Inl ValueError | x # r \<Rightarrow> Inr (foldl fmin x r))"

definition fsum :: "fl list \<Rightarrow> fl" where
  \<comment> \<open>\<^verbatim>\<open>a.sum()\<close>; the sum of no entries is 0\<close>
  "fsum xs = foldl fadd (Fin 0) xs"

section \<open>genCmtx\<close>

text \<open>
  \<^verbatim>\<open>sobmtxC[i,:,i] = sobmtxA[:,i]\<close>: the index \<open>i\<close> must be a column of the copy of B
  (IndexError otherwise), and the column of A must have as many entries as the copy has
  rows, or a single entry, which numpy broadcasts (ValueError otherwise).
\<close>

definition set_column :: "'a list list \<Rightarrow> nat \<Rightarrow> 'a list \<Rightarrow> 'a list list" where
  "set_column M i col = map (\<lambda>(row, v). row[i := v]) (zip M col)"

definition assign_column :: "'a list list list \<Rightarrow> nat \<Rightarrow> 'a list list \<Rightarrow> error + 'a list list list" where
  "assign_column C i A =
     (if ncols (C ! i) \<le> i then Inl IndexError
      else if length A = length (C ! i) then Inr (C[i := set_column (C ! i) i (column A i)])
      else if length A = 1 then Inr (C[i := set_column (C ! i) i (replicate (length (C ! i)) (A ! 0 ! i))])
      else Inl ValueError)"

fun genCmtx_loop :: "'a list list \<Rightarrow> nat list \<Rightarrow> 'a list list list \<Rightarrow> error + 'a list list list" where
  "genCmtx_loop A [] C = Inr C"
| "genCmtx_loop A (i # is) C =
     (case assign_column C i A of Inl e \<Rightarrow> Inl e | Inr C' \<Rightarrow> genCmtx_loop A is C')"

definition genCmtx :: "'a list list \<Rightarrow> 'a list list \<Rightarrow> error + 'a list list list" where
  "genCmtx sobmtxA sobmtxB =
     (let nparams = ncols sobmtxA;
          sobmtxC = replicate nparams sobmtxB
      in genCmtx_loop sobmtxA [0..<nparams] sobmtxC)"

text \<open>The state of the C matrix after the loop has handled the parameters below \<open>m\<close>.\<close>

definition swapped :: "'a list list \<Rightarrow> 'a list list \<Rightarrow> nat \<Rightarrow> nat \<Rightarrow> 'a list list list" where
  "swapped A B p m =
     map (\<lambda>k. if k < m then set_column B k (column A k) else B) [0..<p]"

section \<open>compare\_data\<close>

text \<open>
  \<^verbatim>\<open>scipy.interpolate.splrep\<close> is not part of the repository: it is a parameter of the
  model. Given the abscissae and the ordinates of a simulated series it returns the
  fitted spline, here the function that \<^verbatim>\<open>splev\<close> evaluates at each requested point, or
  it raises.
\<close>

type_synonym spline_fit = "fl list \<Rightarrow> fl list \<Rightarrow> error + (fl \<Rightarrow> fl)"

definition splev :: "fl list \<Rightarrow> (fl \<Rightarrow> fl) \<Rightarrow> fl list" where
  "splev x tck = map tck x"

definition clamp_const :: fl where
  \<comment> \<open>\<^verbatim>\<open>1e-100\<close>\<close>
  "clamp_const = Fin (1 / 10 ^ 100)"

definition clamp_term :: "fl \<Rightarrow> fl" where
  \<comment> \<open>one step of the loop over \<^verbatim>\<open>objarray\<close>\<close>
  "clamp_term v = (if isinf v \<or> isnan v then clamp_const else v)"

text \<open>
  One pass of the loop over \<^verbatim>\<open>xspairlist\<close>. The pairs are typed as pairs of row
  indices, so the two assertions of the source hold. Reading a row that the array does
  not have is an IndexError.
\<close>

definition compare_pair ::
  "spline_fit \<Rightarrow> fl list list \<Rightarrow> fl list list \<Rightarrow> bool \<Rightarrow> nat \<times> nat \<Rightarrow> error + fl" where
  "compare_pair splrep xparray simarray vardata pr =
     (let xparrayaxis = fst pr; simarrayaxis = snd pr in
      if length simarray \<le> 0 \<or> length simarray \<le> simarrayaxis then Inl IndexError
      else case splrep (simarray ! 0) (simarray ! simarrayaxis) of
        Inl e \<Rightarrow> Inl e
      | Inr tck \<Rightarrow>
          if length xparray \<le> 0 \<or> length xparray \<le> xparrayaxis then Inl IndexError
          else if vardata \<and> length xparray \<le> xparrayaxis + 1 then Inl IndexError
          else
            let ipsimarray = splev (xparray ! 0) tck;
                diffarray = map2 fsub ipsimarray (xparray ! xparrayaxis);
                diffsqarray = map2 fmul diffarray diffarray;
                xparrayvar0 =
                  (if vardata then xparray ! (xparrayaxis + 1)
                   else let v = map (\<lambda>x. fmul x (Fin (1 / 10))) (xparray ! xparrayaxis)
                        in map2 fmul v v);
                xparrayvar = map (\<lambda>v. fmul v (Fin 2)) xparrayvar0;
                objarray = map2 fdiv diffsqarray xparrayvar
            in Inr (fsum (map clamp_term objarray)))"

fun compare_loop ::
  "spline_fit \<Rightarrow> fl list list \<Rightarrow> fl list list \<Rightarrow> bool \<Rightarrow> (nat \<times> nat) list \<Rightarrow> error + fl list" where
  "compare_loop splrep xparray simarray vardata [] = Inr []"
| "compare_loop splrep xparray simarray vardata (pr # prs) =
     (case compare_pair splrep xparray simarray vardata pr of
        Inl e \<Rightarrow> Inl e
      | Inr obj \<Rightarrow>
          (case compare_loop splrep xparray simarray vardata prs of
             Inl e \<Rightarrow> Inl e
           | Inr objout \<Rightarrow> Inr (obj # objout)))"

definition compare_data ::
  "spline_fit \<Rightarrow> fl list list \<Rightarrow> fl list list \<Rightarrow> (nat \<times> nat) list \<Rightarrow> bool \<Rightarrow> error + fl list" where
  "compare_data splrep xparray simarray xspairlist vardata =
     compare_loop splrep xparray simarray vardata xspairlist"

text \<open>
  The objective as the specification words it: per experimental time point the squared
  residual over twice the variance, the variance being the next experimental row or the
  square of a tenth of the experimental value.
\<close>

definition spec_variance :: "fl list list \<Rightarrow> bool \<Rightarrow> nat \<Rightarrow> nat \<Rightarrow> fl" where
  "spec_variance xparray vardata exp_row t =
     (if vardata then xparray ! (exp_row + 1) ! t
      else fmul (fmul (Fin (1 / 10)) (xparray ! exp_row ! t))
                (fmul (Fin (1 / 10)) (xparray ! exp_row ! t)))"

definition spec_term :: "(fl \<Rightarrow> fl) \<Rightarrow> fl list list \<Rightarrow> bool \<Rightarrow> nat \<Rightarrow> nat \<Rightarrow> fl" where
  "spec_term tck xparray vardata exp_row t =
     (let resampled_sim = tck (xparray ! 0 ! t);
          residual = fsub resampled_sim (xparray ! exp_row ! t)
      in fdiv (fmul residual residual)
              (fmul (Fin 2) (spec_variance xparray vardata exp_row t)))"

definition spec_objective :: "(fl \<Rightarrow> fl) \<Rightarrow> fl list list \<Rightarrow> bool \<Rightarrow> nat \<Rightarrow> fl" where
  \<comment> \<open>the sum of the terms over all experimental time points\<close>
  "spec_objective tck xparray vardata exp_row =
     fsum (map (spec_term tck xparray vardata exp_row) [0..<ncols xparray])"

definition guarded_objective :: "(fl \<Rightarrow> fl) \<Rightarrow> fl list list \<Rightarrow> bool \<Rightarrow> nat \<Rightarrow> fl" where
  \<comment> \<open>the same sum, a term that is infinite or NaN counting as \<^verbatim>\<open>1e-100\<close>\<close>
  "guarded_objective tck xparray vardata exp_row =
     fsum (map (\<lambda>t. clamp_term (spec_term tck xparray vardata exp_row t)) [0..<ncols xparray])"

text \<open>
  A spline fit for the examples: the cubic spline through a series that is 1 at every
  abscissa is the constant 1.
\<close>

definition unit_spline :: "fl \<Rightarrow> fl" where
  "unit_spline t = Fin 1"

definition unit_fit :: spline_fit where
  "unit_fit x y = Inr unit_spline"

section \<open>getvarsens\<close>

text \<open>
  The numpy operations of \<^verbatim>\<open>getvarsens\<close> on two-dimensional arrays, all along axis 0 (the
  sample axis): the elementwise product, \<^verbatim>\<open>sum(axis=0)\<close>, \<^verbatim>\<open>numpy.average(axis=0)\<close> and
  \<^verbatim>\<open>numpy.var(axis=0, ddof)\<close>, which numpy computes as the sum of the squared deviations
  from the mean over \<open>n - ddof\<close>. The operands have the shapes the function documents;
  numpy's broadcasting of other shapes is not modelled.
\<close>

definition mmul :: "fl list list \<Rightarrow> fl list list \<Rightarrow> fl list list" where
  "mmul A B = map2 (map2 fmul) A B"

definition sum_axis0 :: "fl list list \<Rightarrow> fl list" where
  "sum_axis0 M = map (\<lambda>j. fsum (column M j)) [0..<ncols M]"

definition average_axis0 :: "fl list list \<Rightarrow> fl list" where
  "average_axis0 M = map (\<lambda>s. fdiv s (Fin (real (length M)))) (sum_axis0 M)"

definition var_axis0 :: "nat \<Rightarrow> fl list list \<Rightarrow> fl list" where
  "var_axis0 ddof M =
     (let arrmean = average_axis0 M;
          x = map (\<lambda>r. map2 fsub r arrmean) M;
          x2 = mmul x x
      in map (\<lambda>s. fdiv s (Fin (real (length M - ddof)))) (sum_axis0 x2))"

definition getvarsens ::
  "fl list list \<Rightarrow> fl list list \<Rightarrow> fl list list list \<Rightarrow> fl list list \<times> fl list list" where
  "getvarsens yA yB yC =
     (let nparms = length yC;
          nsamples = (case yC of [] \<Rightarrow> 0 | c # _ \<Rightarrow> length c);
          varyA = var_axis0 1 yA;
          varyB = var_axis0 1 yB;
          E_s = average_axis0 (mmul yA yB);
          E_st = map (\<lambda>x. fpow x (Fin 2)) (average_axis0 yB);
          Sens = map (\<lambda>i.
                   map2 fdiv
                     (map2 fsub
                        (map (\<lambda>s. fdiv s (Fin (real nsamples - 1))) (sum_axis0 (mmul yA (yC ! i))))
                        E_s)
                     varyA) [0..<nparms];
          SensT = map (\<lambda>i.
                    map (fsub (Fin 1))
                      (map2 fdiv
                         (map2 fsub
                            (map (\<lambda>s. fdiv s (Fin (real nsamples - 1))) (sum_axis0 (mmul yB (yC ! i))))
                            E_st)
                         varyB)) [0..<nparms]
      in (Sens, SensT))"

text \<open>
  The estimator as the specification words it, for one observable column: \<open>a\<close>, \<open>b\<close> and
  \<open>c\<close> are the columns of \<open>yA\<close>, \<open>yB\<close> and \<open>yC[k]\<close>, \<open>n\<close> is the number of samples, and the
  variance is the one with Bessel's correction.
\<close>

definition mean :: "fl list \<Rightarrow> fl" where
  "mean xs = fdiv (fsum xs) (Fin (real (length xs)))"

definition bessel_var :: "fl list \<Rightarrow> fl" where
  "bessel_var xs =
     fdiv (fsum (map (\<lambda>x. fmul (fsub x (mean xs)) (fsub x (mean xs))) xs))
          (Fin (real (length xs) - 1))"

definition spec_S :: "fl list \<Rightarrow> fl list \<Rightarrow> fl list \<Rightarrow> fl" where
  "spec_S a b c =
     fdiv (fsub (fdiv (fsum (map2 fmul a c)) (Fin (real (length a) - 1)))
                (mean (map2 fmul a b)))
          (bessel_var a)"

definition spec_ST :: "fl list \<Rightarrow> fl list \<Rightarrow> fl" where
  "spec_ST b c =
     fsub (Fin 1)
       (fdiv (fsub (fdiv (fsum (map2 fmul b c)) (Fin (real (length b) - 1)))
                   (fpow (mean b) (Fin 2)))
             (bessel_var b))"

section \<open>getlog\<close>








section \<open>writetofile\<close>

text \<open>
  The file object is modelled by the text that the calls of \<^verbatim>\<open>fout.write\<close> append to it,
  in order. How \<^verbatim>\<open>'{}'.format\<close> prints a parameter, a data value or the temperature is
  Python's business: the printers \<open>fmt\<close> and \<open>fmt_t\<close> are parameters. Integers (the counts
  and the row indices) are printed in decimal.
\<close>

definition nl :: string where
  "nl = [CHR 0x0A]"

fun str_nat :: "nat \<Rightarrow> string" where
  "str_nat n = (if n < 10 then [char_of (48 + n)] else str_nat (n div 10) @ [char_of (48 + n mod 10)])"

definition sep :: "nat \<Rightarrow> nat \<Rightarrow> nat \<Rightarrow> string" where
  \<comment> \<open>what follows value \<open>i\<close> of \<open>n\<close> values: \<^verbatim>\<open>(i != 0 and i%k == 0) or (i == n-1)\<close>\<close>
  "sep k n i = (if (i \<noteq> 0 \<and> i mod k = 0) \<or> i = n - 1 then nl else '', '')"

definition write_values :: "('a \<Rightarrow> string) \<Rightarrow> nat \<Rightarrow> nat \<Rightarrow> 'a list \<Rightarrow> string" where
  \<comment> \<open>the loop over \<^verbatim>\<open>range(n)\<close> that writes the values of a list\<close>
  "write_values fmt k n xs = concat (map (\<lambda>i. fmt (xs ! i) @ sep k n i) [0..<n])"

definition separator :: string where
  "separator = CHR ''#'' # replicate 97 (CHR ''-'') @ nl"

definition writetofile ::
  "('t \<Rightarrow> string) \<Rightarrow> ('a \<Rightarrow> string) \<Rightarrow> 'a list \<Rightarrow> 'a list list \<Rightarrow> 't \<Rightarrow> string" where
  "writetofile fmt_t fmt simparms simdata temperature =
     (let imax = length simdata; jmax = ncols simdata; nparms = length simparms in
      ''# TEMPERATURE'' @ nl @ fmt_t temperature @ nl @
      ''# PARAMETERS ('' @ str_nat (length simparms) @ '')'' @ nl @
      write_values fmt 5 nparms simparms @
      ''# SIMDATA ('' @ str_nat imax @ '','' @ str_nat jmax @ '')'' @ nl @
      concat (map (\<lambda>i. ''# '' @ str_nat i @ nl @ write_values fmt 10 jmax (simdata ! i)) [0..<imax]) @
      separator)"

text \<open>
  The layout in words. \<open>chunks k\<close> cuts a list into lines of \<open>k\<close> values, \<open>line\<close> prints
  one line, comma-separated. \<open>wrapped_every k\<close> is the layout the specification
  announces, \<open>k\<close> values on every line; \<open>wrapped_after_multiples k\<close> is the layout with
  a line break after every value whose index is a positive multiple of \<open>k\<close>: \<open>k + 1\<close>
  values on the first line, \<open>k\<close> on the following ones.
\<close>

fun join :: "string list \<Rightarrow> string" where
  "join [] = []"
| "join [v] = v"
| "join (v # w # vs) = v @ '', '' @ join (w # vs)"

definition line :: "string list \<Rightarrow> string" where
  "line vs = join vs @ nl"

fun chunks :: "nat \<Rightarrow> 'a list \<Rightarrow> 'a list list" where
  "chunks k xs = (if xs = [] \<or> k = 0 then [] else take k xs # chunks k (drop k xs))"

definition wrapped_every :: "nat \<Rightarrow> string list \<Rightarrow> string" where
  "wrapped_every k vs = concat (map line (chunks k vs))"

definition wrapped_after_multiples :: "nat \<Rightarrow> string list \<Rightarrow> string" where
  "wrapped_after_multiples k vs =
     (if vs = [] then [] else line (take (Suc k) vs) @ wrapped_every k (drop (Suc k) vs))"

fun emit :: "nat \<Rightarrow> nat \<Rightarrow> nat \<Rightarrow> string list \<Rightarrow> string" where
  "emit k n i [] = []"
| "emit k n i (v # vs) = v @ sep k n i @ emit k n (Suc i) vs"

section \<open>The parameter buffer and odesolve\<close>

text \<open>
  \<^verbatim>\<open>odeinit\<close> keeps the parameters in a ctypes array of \<^verbatim>\<open>c_float\<close>: storing a Python
  float there converts it to IEEE single precision (24 significant bits, exponents of
  the last place from \<open>-149\<close> to \<open>104\<close>, round to nearest, ties to even, overflow to
  infinity), and reading it gives that single-precision value back as a Python float.
  \<open>c_float\<close> is this conversion on the values of the model.
\<close>

definition round_half_even :: "real \<Rightarrow> int" where
  "round_half_even x =
     (let f = \<lfloor>x\<rfloor>; d = x - of_int f
      in if d < 1 / 2 then f else if 1 / 2 < d then f + 1 else if even f then f else f + 1)"

definition float32_exponent :: "real \<Rightarrow> int" where
  \<comment> \<open>the exponent of the unit in the last place: the largest \<open>e\<close> from \<open>-149\<close> to \<open>104\<close>
      with \<open>2 ^ 23 * 2 ^ e \<le> |x|\<close>, and \<open>-149\<close> below the normal range\<close>
  "float32_exponent x =
     (case filter (\<lambda>e. 2 ^ 23 * 2 powi e \<le> \<bar>x\<bar>) (rev [- 149..104]) of
        [] \<Rightarrow> - 149
      | e # _ \<Rightarrow> e)"

definition c_float_round :: "real \<Rightarrow> fl" where
  "c_float_round x =
     (let e = float32_exponent x;
          m = round_half_even (x / 2 powi e)
      in if e = 104 \<and> 2 ^ 24 \<le> \<bar>m\<bar> then (if 0 < x then PInf else NInf)
         else Fin (of_int m * 2 powi e))"

fun c_float :: "fl \<Rightarrow> fl" where
  "c_float (Fin x) = c_float_round x"
| "c_float v = v"

text \<open>
  What \<^verbatim>\<open>odeinit\<close> and \<^verbatim>\<open>odesolve\<close> read of a model: the parameters (name and value), the
  initial conditions (the index of the species and the value of its parameter), the
  observables (species indices and coefficients) and the number of observable patterns.
\<close>

record model =
  parameters :: "(string \<times> fl) list"
  initial_conditions :: "(nat \<times> fl) list"
  observables :: "(nat list \<times> fl list) list"
  observable_patterns :: nat

text \<open>
  The environment list of \<^verbatim>\<open>odeinit\<close>, as far as \<^verbatim>\<open>odesolve\<close> uses it. A compiled
  right-hand side is a function of the state \<open>y\<close> and the parameter buffer \<open>p\<close> that may
  raise; \<open>data_p\<close> is the \<^verbatim>\<open>c_float\<close> buffer \<^verbatim>\<open>data.p\<close>. The entries \<^verbatim>\<open>y\<close>, \<^verbatim>\<open>xout\<close> and
  \<^verbatim>\<open>yout\<close> are overwritten by every \<^verbatim>\<open>odesolve\<close> before it reads them, and the tolerances
  are not read at all.
\<close>

type_synonym rhs_expr = "fl list \<Rightarrow> fl list \<Rightarrow> error + fl"

record env =
  rhs_exprs :: "rhs_expr list"
  odesize :: nat
  data_p :: "fl list"
  nsteps :: nat
  yzero :: "fl list"

fun assign_ics :: "(nat \<times> fl) list \<Rightarrow> fl list \<Rightarrow> error + fl list" where
  \<comment> \<open>\<^verbatim>\<open>yzero[speci] = ic_param.value\<close> for every initial condition\<close>
  "assign_ics [] yz = Inr yz"
| "assign_ics ((speci, v) # ics) yz =
     (if length yz \<le> speci then Inl IndexError else assign_ics ics (yz[speci := v]))"

definition odeinit :: "rhs_expr list \<Rightarrow> model \<Rightarrow> nat \<Rightarrow> error + env \<times> fl list" where
  \<comment> \<open>the compiled right-hand sides are given: generating and compiling them is not modelled\<close>
  "odeinit exprs mdl steps =
     (let size = length exprs in
      case assign_ics (initial_conditions mdl) (replicate size (Fin 0)) of
        Inl e \<Rightarrow> Inl e
      | Inr yz \<Rightarrow>
          Inr (\<lparr>rhs_exprs = exprs, odesize = size,
                data_p = map (\<lambda>p. c_float (snd p)) (parameters mdl),
                nsteps = steps, yzero = yz\<rparr>,
               map snd (parameters mdl)))"

fun eval_exprs :: "rhs_expr list \<Rightarrow> fl list \<Rightarrow> fl list \<Rightarrow> error + fl list" where
  "eval_exprs [] y p = Inr []"
| "eval_exprs (ex # exs) y p =
     (case ex y p of
        Inl e \<Rightarrow> Inl e
      | Inr v \<Rightarrow> (case eval_exprs exs y p of Inl e \<Rightarrow> Inl e | Inr vs \<Rightarrow> Inr (v # vs)))"

definition f_rhs :: "env \<Rightarrow> fl list \<Rightarrow> fl \<Rightarrow> error + fl list" where
  \<comment> \<open>the right-hand side \<^verbatim>\<open>f(y, t)\<close> of \<^verbatim>\<open>odeinit\<close>: it reads the parameters from the buffer\<close>
  "f_rhs ev y t = eval_exprs (rhs_exprs ev) y (data_p ev)"

text \<open>
  The two loops of \<^verbatim>\<open>odesolve\<close> that write the buffer. A store into the ctypes array
  converts the value with \<open>c_float\<close>; an index beyond the array, or beyond \<open>params\<close>,
  is an IndexError.
\<close>

fun set_all :: "fl list \<Rightarrow> nat list \<Rightarrow> fl list \<Rightarrow> error + fl list" where
  "set_all params [] p = Inr p"
| "set_all params (i # is) p =
     (if length p \<le> i then Inl IndexError
      else set_all params is (p[i := c_float (params ! i)]))"

fun set_subset :: "fl list \<Rightarrow> nat list \<Rightarrow> nat list \<Rightarrow> fl list \<Rightarrow> error + fl list" where
  "set_subset params useparams [] p = Inr p"
| "set_subset params useparams (i # is) p =
     (if length params \<le> i then Inl IndexError
      else if length p \<le> useparams ! i then Inl IndexError
      else set_subset params useparams is (p[useparams ! i := c_float (params ! i)]))"

definition set_params :: "fl list \<Rightarrow> nat list option \<Rightarrow> fl list \<Rightarrow> error + fl list" where
  "set_params params useparams p =
     (case useparams of
        None \<Rightarrow> set_all params [0..<length params] p
      | Some us \<Rightarrow> set_subset params us [0..<length us] p)"

definition linspace :: "fl \<Rightarrow> fl \<Rightarrow> nat \<Rightarrow> fl list" where
  "linspace start stop num =
     (if num = 0 then []
      else if num = 1 then [start]
      else (map (\<lambda>i. fadd start (fmul (Fin (real i)) (fdiv (fsub stop start) (Fin (real num - 1)))))
              [0..<num])[num - 1 := stop])"

fun observe :: "fl list list \<Rightarrow> (nat list \<times> fl list) list \<Rightarrow> error + fl list list" where
  \<comment> \<open>\<^verbatim>\<open>yobs[i] = (yout[:, specs] * coeffs).sum(1)\<close> for every observable\<close>
  "observe yout [] = Inr []"
| "observe yout ((specs, coeffs) # obs) =
     (if list_ex (\<lambda>r. list_ex (\<lambda>s. length r \<le> s) specs) yout then Inl IndexError
      else case observe yout obs of
        Inl e \<Rightarrow> Inl e
      | Inr rows \<Rightarrow>
          Inr (map (\<lambda>r. fsum (map2 fmul (map (\<lambda>s. r ! s) specs) coeffs)) yout # rows))"

text \<open>
  \<^verbatim>\<open>scipy.integrate.odeint\<close> is not part of the repository: it is a parameter, given the
  right-hand side, the initial state and the time grid, and returning one state per
  time, or raising. \<^verbatim>\<open>odesolve\<close> returns the environment it has updated and the tuple
  \<^verbatim>\<open>(xyobs, xout, yout, yobs)\<close>.
\<close>

type_synonym integrator =
  "(fl list \<Rightarrow> fl \<Rightarrow> error + fl list) \<Rightarrow> fl list \<Rightarrow> fl list \<Rightarrow> error + fl list list"

type_synonym solution = "fl list list \<times> fl list \<times> fl list list \<times> fl list list"

definition odesolve ::
  "integrator \<Rightarrow> model \<Rightarrow> fl \<Rightarrow> env \<Rightarrow> fl list \<Rightarrow> nat list option \<Rightarrow> fl \<Rightarrow> bool
     \<Rightarrow> error + env \<times> solution" where
  "odesolve odeint mdl tfinal ev params useparams tinit ic =
     (case set_params params useparams (data_p ev) of
        Inl e \<Rightarrow> Inl e
      | Inr p \<Rightarrow>
          (case (if ic then assign_ics (initial_conditions mdl) (yzero ev) else Inr (yzero ev)) of
             Inl e \<Rightarrow> Inl e
           | Inr yz \<Rightarrow>
               let ev' = ev\<lparr>data_p := p, yzero := yz\<rparr>;
                   xout = linspace tinit tfinal (nsteps ev)
               in (case odeint (f_rhs ev') yz xout of
                     Inl e \<Rightarrow> Inl e
                   | Inr yout \<Rightarrow>
                       (case observe yout (observables mdl) of
                          Inl e \<Rightarrow> Inl e
                        | Inr yobs \<Rightarrow> Inr (ev', (xout # yobs, xout, yout, yobs))))))"

text \<open>
  An instance for the examples: the system \<open>dy/dt = k\<close> with one species, one parameter
  and one observable, and the explicit Euler method on the time grid as the integrator.
\<close>

definition growth_rhs :: rhs_expr where
  "growth_rhs y p = (if p = [] then Inl IndexError else Inr (p ! 0))"

definition growth_model :: model where
  "growth_model =
     \<lparr>parameters = [(''k'', Fin (1 / 10))], initial_conditions = [(0, Fin 0)],
      observables = [([0], [Fin 1])], observable_patterns = 1\<rparr>"

fun euler ::
  "(fl list \<Rightarrow> fl \<Rightarrow> error + fl list) \<Rightarrow> fl list \<Rightarrow> fl \<Rightarrow> fl list \<Rightarrow> error + fl list list" where
  "euler g y t [] = Inr []"
| "euler g y t (t' # ts) =
     (case g y t of
        Inl e \<Rightarrow> Inl e
      | Inr dy \<Rightarrow>
          (case euler g (map2 (\<lambda>a d. fadd a (fmul (fsub t' t) d)) y dy) t' ts of
             Inl e \<Rightarrow> Inl e
           | Inr ys \<Rightarrow> Inr (map2 (\<lambda>a d. fadd a (fmul (fsub t' t) d)) y dy # ys)))"

definition euler_integrator :: integrator where
  "euler_integrator g y0 xout =
     (case xout of
        [] \<Rightarrow> Inr []
      | t0 # ts \<Rightarrow> (case euler g y0 t0 ts of Inl e \<Rightarrow> Inl e | Inr ys \<Rightarrow> Inr (y0 # ys)))"

definition growth_env :: env where
  \<comment> \<open>what \<open>odeinit [growth_rhs] growth_model 2\<close> returns, with the buffer written out\<close>
  "growth_env =
     \<lparr>rhs_exprs = [growth_rhs], odesize = 1, data_p = [Fin (13421773 / 134217728)],
      nsteps = 2, yzero = [Fin 0]\<rparr>"

section \<open>parmeval\<close>

text \<open>
  The min-max normalisation of the \<open>norm\<close> branch: every row of the simulation output,
  the time row included, is rescaled by its own minimum and maximum, and then row 0 is
  set back to the time row of the output. \<^verbatim>\<open>numpy.max\<close> of rows without entries raises
  ValueError.
\<close>

definition norm_row :: "fl list \<Rightarrow> error + fl list" where
  "norm_row r =
     (case amax r of
        Inl e \<Rightarrow> Inl e
      | Inr datamax \<Rightarrow>
          (case amin r of
             Inl e \<Rightarrow> Inl e
           | Inr datamin \<Rightarrow>
               Inr (map (\<lambda>x. fdiv (fsub x datamin) (fsub datamax datamin)) r)))"

fun norm_rows :: "fl list list \<Rightarrow> error + fl list list" where
  "norm_rows [] = Inr []"
| "norm_rows (r # rs) =
     (case norm_row r of
        Inl e \<Rightarrow> Inl e
      | Inr n \<Rightarrow> (case norm_rows rs of Inl e \<Rightarrow> Inl e | Inr ns \<Rightarrow> Inr (n # ns)))"

definition minmax_norm :: "fl list list \<Rightarrow> error + fl list list" where
  "minmax_norm out0 =
     (case norm_rows out0 of
        Inl e \<Rightarrow> Inl e
      | Inr outlistnorm \<Rightarrow>
          if out0 = [] then Inl IndexError else Inr (outlistnorm[0 := out0 ! 0]))"

text \<open>
  \<^verbatim>\<open>parmeval\<close> passes its \<open>ic\<close> as the sixth positional argument of \<^verbatim>\<open>odesolve\<close>, which is
  \<open>tinit\<close>: the initial time is the number that the boolean is, and \<^verbatim>\<open>odesolve\<close> runs with
  its own default \<^verbatim>\<open>ic=True\<close>.
\<close>

definition tinit_of_ic :: "bool \<Rightarrow> fl" where
  "tinit_of_ic ic = (if ic then Fin 1 else Fin 0)"

definition assign_row :: "nat \<Rightarrow> fl list \<Rightarrow> error + fl list" where
  \<comment> \<open>\<^verbatim>\<open>yA[i] = ...\<close>: the vector of objectives goes into a row of \<open>nobs\<close> entries\<close>
  "assign_row nobs obj =
     (if length obj = nobs then Inr obj
      else if length obj = 1 then Inr (replicate nobs (obj ! 0))
      else Inl ValueError)"

text \<open>
  The state of a run: the environment and the local variable \<^verbatim>\<open>outlistnorm\<close>, which is
  unbound (\<open>None\<close>) until a statement assigns it. The bodies of the loops follow; the
  calls of \<^verbatim>\<open>print\<close> and \<^verbatim>\<open>spinner\<close> only write to the terminal and are left out.
\<close>

type_synonym pstate = "env \<times> fl list list option"

definition row_norm ::
  "integrator \<Rightarrow> spline_fit \<Rightarrow> model \<Rightarrow> fl \<Rightarrow> fl list list \<Rightarrow> (nat \<times> nat) list \<Rightarrow> bool \<Rightarrow> bool
     \<Rightarrow> nat list option \<Rightarrow> pstate \<Rightarrow> fl list \<Rightarrow> error + pstate \<times> fl list" where
  \<comment> \<open>lines 370-375, 380-386 and 394-400: the same statements for A, B and C\<close>
  "row_norm odeint splrep mdl time xpdata xspairlist ic vardata useparams st row =
     (case odesolve odeint mdl time (fst st) row useparams (tinit_of_ic ic) True of
        Inl e \<Rightarrow> Inl e
      | Inr (ev, outlist) \<Rightarrow>
          (case minmax_norm (fst outlist) of
             Inl e \<Rightarrow> Inl e
           | Inr outlistnorm \<Rightarrow>
               (case compare_data splrep xpdata outlistnorm xspairlist vardata of
                  Inl e \<Rightarrow> Inl e
                | Inr obj \<Rightarrow>
                    (case assign_row (observable_patterns mdl) obj of
                       Inl e \<Rightarrow> Inl e
                     | Inr y \<Rightarrow> Inr ((ev, Some outlistnorm), y)))))"

definition row_raw_A ::
  "integrator \<Rightarrow> spline_fit \<Rightarrow> model \<Rightarrow> fl \<Rightarrow> fl list list \<Rightarrow> (nat \<times> nat) list \<Rightarrow> bool \<Rightarrow> bool
     \<Rightarrow> nat list option \<Rightarrow> pstate \<Rightarrow> fl list \<Rightarrow> error + pstate \<times> fl list" where
  \<comment> \<open>lines 406-407: the objective is computed from \<^verbatim>\<open>outlist[0]\<close>\<close>
  "row_raw_A odeint splrep mdl time xpdata xspairlist ic vardata useparams st row =
     (case odesolve odeint mdl time (fst st) row useparams (tinit_of_ic ic) True of
        Inl e \<Rightarrow> Inl e
      | Inr (ev, outlist) \<Rightarrow>
          (case compare_data splrep xpdata (fst outlist) xspairlist vardata of
             Inl e \<Rightarrow> Inl e
           | Inr obj \<Rightarrow>
               (case assign_row (observable_patterns mdl) obj of
                  Inl e \<Rightarrow> Inl e
                | Inr y \<Rightarrow> Inr ((ev, snd st), y))))"

definition row_raw_BC ::
  "integrator \<Rightarrow> spline_fit \<Rightarrow> model \<Rightarrow> fl \<Rightarrow> fl list list \<Rightarrow> (nat \<times> nat) list \<Rightarrow> bool \<Rightarrow> bool
     \<Rightarrow> nat list option \<Rightarrow> pstate \<Rightarrow> fl list \<Rightarrow> error + pstate \<times> fl list" where
  \<comment> \<open>lines 412-413 and 420-421: the objective is computed from \<^verbatim>\<open>outlistnorm\<close>\<close>
  "row_raw_BC odeint splrep mdl time xpdata xspairlist ic vardata useparams st row =
     (case odesolve odeint mdl time (fst st) row useparams (tinit_of_ic ic) True of
        Inl e \<Rightarrow> Inl e
      | Inr (ev, outlist) \<Rightarrow>
          (case snd st of
             None \<Rightarrow> Inl (NameError ''outlistnorm'')
           | Some outlistnorm \<Rightarrow>
               (case compare_data splrep xpdata outlistnorm xspairlist vardata of
                  Inl e \<Rightarrow> Inl e
                | Inr obj \<Rightarrow>
                    (case assign_row (observable_patterns mdl) obj of
                       Inl e \<Rightarrow> Inl e
                     | Inr y \<Rightarrow> Inr ((ev, snd st), y)))))"

fun rows_loop ::
  "(pstate \<Rightarrow> fl list \<Rightarrow> error + pstate \<times> fl list) \<Rightarrow> pstate \<Rightarrow> fl list list
     \<Rightarrow> error + pstate \<times> fl list list" where
  "rows_loop body st [] = Inr (st, [])"
| "rows_loop body st (row # rows) =
     (case body st row of
        Inl e \<Rightarrow> Inl e
      | Inr (st', y) \<Rightarrow>
          (case rows_loop body st' rows of
             Inl e \<Rightarrow> Inl e
           | Inr (st'', ys) \<Rightarrow> Inr (st'', y # ys)))"

fun mats_loop ::
  "(pstate \<Rightarrow> fl list \<Rightarrow> error + pstate \<times> fl list) \<Rightarrow> pstate \<Rightarrow> fl list list list
     \<Rightarrow> error + pstate \<times> fl list list list" where
  "mats_loop body st [] = Inr (st, [])"
| "mats_loop body st (rows # mats) =
     (case rows_loop body st rows of
        Inl e \<Rightarrow> Inl e
      | Inr (st', ys) \<Rightarrow>
          (case mats_loop body st' mats of
             Inl e \<Rightarrow> Inl e
           | Inr (st'', yss) \<Rightarrow> Inr (st'', ys # yss)))"

text \<open>
  \<^verbatim>\<open>parmeval\<close> returns \<open>(yA, yB, yC)\<close>, here with the environment it leaves behind;
  \<open>norm_flag\<close> is its argument \<^verbatim>\<open>norm\<close>. With a file object it calls \<^verbatim>\<open>writetofile\<close> on
  \<^verbatim>\<open>params\<close>, a name that nothing binds.
\<close>

definition parmeval ::
  "integrator \<Rightarrow> spline_fit \<Rightarrow> model \<Rightarrow> fl list list \<Rightarrow> fl list list \<Rightarrow> fl list list list \<Rightarrow> fl
     \<Rightarrow> env \<Rightarrow> fl list list \<Rightarrow> (nat \<times> nat) list \<Rightarrow> bool \<Rightarrow> bool \<Rightarrow> bool \<Rightarrow> nat list option \<Rightarrow> bool
     \<Rightarrow> error + env \<times> fl list list \<times> fl list list \<times> fl list list list" where
  "parmeval odeint splrep mdl sobmtxA sobmtxB sobmtxC time envlist xpdata xspairlist
      ic norm_flag vardata useparams fileobj =
     (let body_A =
            (if norm_flag then row_norm odeint splrep mdl time xpdata xspairlist ic vardata useparams
             else row_raw_A odeint splrep mdl time xpdata xspairlist ic vardata useparams);
          body_BC =
            (if norm_flag then row_norm odeint splrep mdl time xpdata xspairlist ic vardata useparams
             else row_raw_BC odeint splrep mdl time xpdata xspairlist ic vardata useparams)
      in case rows_loop body_A (envlist, None) sobmtxA of
           Inl e \<Rightarrow> Inl e
         | Inr (st1, yA) \<Rightarrow>
             (case rows_loop body_BC st1 sobmtxB of
                Inl e \<Rightarrow> Inl e
              | Inr (st2, yB) \<Rightarrow>
                  (case mats_loop body_BC st2 sobmtxC of
                     Inl e \<Rightarrow> Inl e
                   | Inr (st3, yC) \<Rightarrow>
                       if fileobj then Inl (NameError ''params'')
                       else Inr (fst st3, yA, yB, yC))))"



section \<open>Properties of genCmtx\<close>

lemma genCmtx_loop_append:
  "genCmtx_loop A (xs @ ys) C =
     (case genCmtx_loop A xs C of Inl e \<Rightarrow> Inl e | Inr C' \<Rightarrow> genCmtx_loop A ys C')"
  by (induction xs arbitrary: C) (auto split: sum.splits)

lemma has_shape_nth: "has_shape n m M \<Longrightarrow> r < n \<Longrightarrow> length (M ! r) = m"
  by (auto simp: has_shape_def list_all_length)

lemma has_shape_ncols: "has_shape n m M \<Longrightarrow> 0 < n \<Longrightarrow> ncols M = m"
  by (cases M) (auto simp: has_shape_def ncols_def)

lemma set_column_shape:
  "has_shape n m M \<Longrightarrow> length col = n \<Longrightarrow> has_shape n m (set_column M i col)"
  by (auto simp: has_shape_def set_column_def list_all_length)

lemma set_column_nth:
  "length col = length M \<Longrightarrow> r < length M \<Longrightarrow>
   set_column M i col ! r = (M ! r)[i := col ! r]"
  by (simp add: set_column_def)

lemma genCmtx_loop_upt:
  assumes A: "has_shape n p A" and B: "has_shape n p B" and n: "0 < n"
  shows "m \<le> p \<Longrightarrow> genCmtx_loop A [0..<m] (replicate p B) = Inr (swapped A B p m)"
proof (induction m)
  case 0
  show ?case by (simp add: swapped_def map_replicate_const)
next
  case (Suc m)
  then have m: "m < p" and IH: "genCmtx_loop A [0..<m] (replicate p B) = Inr (swapped A B p m)"
    by simp_all
  have at: "swapped A B p m ! m = B" using m by (simp add: swapped_def)
  have nc: "ncols B = p" using B n by (rule has_shape_ncols)
  have len: "length A = length B" using A B by (simp add: has_shape_def)
  have step: "assign_column (swapped A B p m) m A
                = Inr ((swapped A B p m)[m := set_column B m (column A m)])"
    using m by (simp add: assign_column_def at nc len)
  have upd: "(swapped A B p m)[m := set_column B m (column A m)] = swapped A B p (Suc m)"
    using m by (auto simp: swapped_def list_eq_iff_nth_eq nth_list_update less_Suc_eq)
  show ?case
    by (simp add: genCmtx_loop_append IH step upd)
qed

lemma swapped_entry:
  assumes A: "has_shape n p A" and B: "has_shape n p B"
    and k: "k < p" and r: "r < n" and j: "j < p"
  shows "swapped A B p p ! k ! r ! j = (if j = k then A ! r ! j else B ! r ! j)"
proof -
  have lenA: "length A = n" and lenB: "length B = n"
    using A B by (simp_all add: has_shape_def)
  have row: "length (B ! r) = p" using B r by (rule has_shape_nth)
  have "swapped A B p p ! k ! r = (B ! r)[k := A ! r ! k]"
    using k r lenA lenB by (simp add: swapped_def set_column_nth column_def)
  then show ?thesis using j k row by (simp add: nth_list_update)
qed

text \<open>
  C1. For matrices A and B of shape \<open>(n, p)\<close> with \<open>n \<ge> 1\<close> and \<open>p \<ge> 1\<close>, \<open>genCmtx A B\<close>
  returns a matrix C of shape \<open>(p, n, p)\<close>; in \<open>C[k]\<close> column \<open>k\<close> is column \<open>k\<close> of A and
  every other column \<open>j\<close> is column \<open>j\<close> of B.
\<close>

theorem genCmtx_swaps_columns:
  assumes "has_shape n p A" and "has_shape n p B" and "1 \<le> n" and "1 \<le> p"
  shows "\<exists>C. genCmtx A B = Inr C \<and> length C = p \<and>
           (\<forall>k<p. has_shape n p (C ! k) \<and>
              column (C ! k) k = column A k \<and>
              (\<forall>j<p. j \<noteq> k \<longrightarrow> column (C ! k) j = column B j))"
proof -
  have n: "0 < n" using assms(3) by simp
  have nc: "ncols A = p" using assms(1) n by (rule has_shape_ncols)
  have lenA: "length A = n" and lenB: "length B = n"
    using assms(1,2) by (simp_all add: has_shape_def)
  have run: "genCmtx A B = Inr (swapped A B p p)"
    using genCmtx_loop_upt [OF assms(1,2) n, of p] by (simp add: genCmtx_def nc)
  have len: "length (swapped A B p p) = p" by (simp add: swapped_def)
  have shape: "has_shape n p (swapped A B p p ! k)" if "k < p" for k
    using that assms(2) lenA by (simp add: swapped_def set_column_shape column_def)
  have own: "column (swapped A B p p ! k) k = column A k" if k: "k < p" for k
  proof -
    have "length (swapped A B p p ! k) = n" using shape [OF k] by (simp add: has_shape_def)
    then show ?thesis
      using swapped_entry [OF assms(1,2) k _ k] lenA
      by (simp add: column_def list_eq_iff_nth_eq)
  qed
  have other: "column (swapped A B p p ! k) j = column B j"
    if k: "k < p" and j: "j < p" and jk: "j \<noteq> k" for k j
  proof -
    have "length (swapped A B p p ! k) = n" using shape [OF k] by (simp add: has_shape_def)
    then show ?thesis
      using swapped_entry [OF assms(1,2) k _ j] lenB jk
      by (simp add: column_def list_eq_iff_nth_eq)
  qed
  show ?thesis using run len shape own other by simp
qed

theorem genCmtx_swaps_columns_witness:
  "has_shape 4 2 [[1/10, 2/10], [3/10, 4/10], [5/10, 6/10], [7/10, 8/10 :: real]] \<and>
   has_shape 4 2 [[9/10, 8/10], [7/10, 6/10], [5/10, 4/10], [3/10, 2/10 :: real]] \<and>
   (\<exists>C. genCmtx [[1/10, 2/10], [3/10, 4/10], [5/10, 6/10], [7/10, 8/10 :: real]]
              [[9/10, 8/10], [7/10, 6/10], [5/10, 4/10], [3/10, 2/10]] = Inr C \<and>
        column (C ! 0) 0 = [1/10, 3/10, 5/10, 7/10] \<and>
        column (C ! 0) 1 = [8/10, 6/10, 4/10, 2/10] \<and>
        column (C ! 1) 0 = [9/10, 7/10, 5/10, 3/10] \<and>
        column (C ! 1) 1 = [2/10, 4/10, 6/10, 8/10])"
proof -
  let ?A = "[[1/10, 2/10], [3/10, 4/10], [5/10, 6/10], [7/10, 8/10 :: real]]"
  let ?B = "[[9/10, 8/10], [7/10, 6/10], [5/10, 4/10], [3/10, 2/10 :: real]]"
  have a: "has_shape 4 2 ?A" and b: "has_shape 4 2 ?B" by (simp_all add: has_shape_def)
  obtain C where C: "genCmtx ?A ?B = Inr C"
    and own: "\<forall>k<2. column (C ! k) k = column ?A k \<and>
              (\<forall>j<2. j \<noteq> k \<longrightarrow> column (C ! k) j = column ?B j)"
    using genCmtx_swaps_columns [OF a b] by auto
  have "column (C ! 0) 0 = column ?A 0" "column (C ! 1) 1 = column ?A 1"
       "column (C ! 0) 1 = column ?B 1" "column (C ! 1) 0 = column ?B 0"
    using own by auto
  then show ?thesis using a b C by (simp add: column_def)
qed

section \<open>Properties of compare\_data\<close>

lemma fmul_commute: "fmul a b = fmul b a"
  by (cases a; cases b) (simp_all add: mult.commute)






lemma compare_loop_Inr:
  "compare_loop splrep xparray simarray vardata prs = Inr objout \<Longrightarrow>
   length objout = length prs \<and>
   (\<forall>i<length prs. compare_pair splrep xparray simarray vardata (prs ! i) = Inr (objout ! i))"
proof (induction prs arbitrary: objout)
  case Nil
  then show ?case by simp
next
  case (Cons pr prs)
  then show ?case
    by (auto split: sum.splits simp: nth_Cons split: nat.splits)
qed


lemma compare_pair_Inr:
  assumes shape: "has_shape k m xparray"
    and run: "compare_pair splrep xparray simarray vardata pr = Inr obj"
  shows "\<exists>tck. splrep (simarray ! 0) (simarray ! snd pr) = Inr tck \<and>
           obj = fsum (map (\<lambda>t. clamp_term (spec_term tck xparray vardata (fst pr) t)) [0..<m])"
proof -
  from run obtain tck where fit: "splrep (simarray ! 0) (simarray ! snd pr) = Inr tck"
    and e: "fst pr < length xparray" and v: "vardata \<longrightarrow> fst pr + 1 < length xparray"
    and x0: "0 < length xparray" and s0: "snd pr < length simarray"
    by (auto simp: compare_pair_def Let_def split: if_splits sum.splits)
  have len: "length xparray = k" using shape by (simp add: has_shape_def)
  have l0: "length (xparray ! 0) = m" using shape x0 len by (simp add: has_shape_nth)
  have le: "length (xparray ! fst pr) = m" using shape e len by (simp add: has_shape_nth)
  have lv: "vardata \<Longrightarrow> length (xparray ! (fst pr + 1)) = m"
    using shape v len by (simp add: has_shape_nth)
  let ?ip = "splev (xparray ! 0) tck"
  let ?row = "xparray ! fst pr"
  have ip: "?ip = map (\<lambda>t. tck (xparray ! 0 ! t)) [0..<m]"
    using l0 by (auto simp: splev_def list_eq_iff_nth_eq)
  have diff: "map2 fsub ?ip ?row = map (\<lambda>t. fsub (tck (xparray ! 0 ! t)) (?row ! t)) [0..<m]"
    using l0 le by (auto simp: list_eq_iff_nth_eq splev_def)
  let ?diff = "map (\<lambda>t. fsub (tck (xparray ! 0 ! t)) (?row ! t)) [0..<m]"
  have sq: "map2 fmul ?diff ?diff =
      map (\<lambda>t. fmul (fsub (tck (xparray ! 0 ! t)) (?row ! t)) (fsub (tck (xparray ! 0 ! t)) (?row ! t))) [0..<m]"
    by (auto simp: list_eq_iff_nth_eq)
  let ?var0 = "if vardata then xparray ! (fst pr + 1)
               else let v = map (\<lambda>x. fmul x (Fin (1 / 10))) ?row in map2 fmul v v"
  have var0: "?var0 = map (\<lambda>t. spec_variance xparray vardata (fst pr) t) [0..<m]"
  proof (cases vardata)
    case True
    then show ?thesis using lv by (auto simp: list_eq_iff_nth_eq spec_variance_def)
  next
    case False
    then show ?thesis using le
      by (auto simp: list_eq_iff_nth_eq spec_variance_def Let_def fmul_commute [of "Fin (1 / 10)"])
  qed
  have var: "map (\<lambda>v. fmul v (Fin 2)) ?var0 =
      map (\<lambda>t. fmul (Fin 2) (spec_variance xparray vardata (fst pr) t)) [0..<m]"
    unfolding var0 by (simp add: fmul_commute [of "Fin 2"] comp_def)
  have obj: "obj = fsum (map clamp_term (map2 fdiv (map2 fmul (map2 fsub ?ip ?row) (map2 fsub ?ip ?row))
                 (map (\<lambda>v. fmul v (Fin 2)) ?var0)))"
  proof -
    have s1: "simarray \<noteq> []" using s0 by auto
    show ?thesis
      using fit e v x0 s0 s1 run by (cases vardata) (simp_all add: compare_pair_def Let_def)
  qed
  have "map2 fdiv (map2 fmul (map2 fsub ?ip ?row) (map2 fsub ?ip ?row)) (map (\<lambda>v. fmul v (Fin 2)) ?var0)
        = map (\<lambda>t. spec_term tck xparray vardata (fst pr) t) [0..<m]"
    unfolding diff sq var by (auto simp: list_eq_iff_nth_eq spec_term_def Let_def)
  then have "obj = fsum (map clamp_term (map (\<lambda>t. spec_term tck xparray vardata (fst pr) t) [0..<m]))"
    using obj by simp
  then show ?thesis using fit by (simp add: comp_def)
qed





lemma compare_data_Inr:
  assumes "has_shape k m xparray"
    and "compare_data splrep xparray simarray xspairlist vardata = Inr objout"
  shows "length objout = length xspairlist \<and>
         (\<forall>i<length xspairlist. \<exists>tck.
            splrep (simarray ! 0) (simarray ! snd (xspairlist ! i)) = Inr tck \<and>
            objout ! i = guarded_objective tck xparray vardata (fst (xspairlist ! i)))"
proof -
  have loop: "length objout = length xspairlist"
    "\<forall>i<length xspairlist.
        compare_pair splrep xparray simarray vardata (xspairlist ! i) = Inr (objout ! i)"
    using compare_loop_Inr [of splrep xparray simarray vardata xspairlist objout] assms(2)
    by (simp_all add: compare_data_def)
  have "\<exists>tck. splrep (simarray ! 0) (simarray ! snd (xspairlist ! i)) = Inr tck \<and>
          objout ! i = guarded_objective tck xparray vardata (fst (xspairlist ! i))"
    if i: "i < length xspairlist" for i
  proof -
    have run: "compare_pair splrep xparray simarray vardata (xspairlist ! i) = Inr (objout ! i)"
      using loop(2) i by simp
    then have "0 < length xparray"
      by (auto simp: compare_pair_def Let_def split: if_splits sum.splits)
    then have "ncols xparray = m"
      using assms(1) by (auto simp: has_shape_def intro: has_shape_ncols [OF assms(1)])
    then show ?thesis
      using compare_pair_Inr [OF assms(1) run] by (simp add: guarded_objective_def)
  qed
  then show ?thesis using loop(1) by simp
qed


text \<open>
  C5 (as amended). For every pairing \<open>(exp_row, sim_row)\<close> of a call that returns, the
  returned scalar is the sum over all experimental time points of
  \<open>(resampled_sim - experimental[exp_row])\<^sup>2 / (2 * variance)\<close>, where a term that comes
  out infinite or NaN enters the sum as \<^verbatim>\<open>1e-100\<close>; the variance is row \<open>exp_row + 1\<close>
  of the experimental array when \<open>vardata\<close> is true and \<open>(0.1 * experimental[exp_row])\<^sup>2\<close>
  otherwise. The output holds one scalar per pairing, in pairing order.
\<close>

theorem compare_data_guarded_objective:
  assumes "has_shape k m xparray"
    and "compare_data splrep xparray simarray xspairlist vardata = Inr objout"
  shows "length objout = length xspairlist \<and>
         (\<forall>i<length xspairlist. \<exists>tck.
            splrep (simarray ! 0) (simarray ! snd (xspairlist ! i)) = Inr tck \<and>
            objout ! i = guarded_objective tck xparray vardata (fst (xspairlist ! i)))"
  using assms by (rule compare_data_Inr)

theorem compare_data_guarded_objective_witness:
  "has_shape 2 4 [[Fin 0, Fin 1, Fin 2, Fin 3], [Fin 2, Fin 2, Fin 2, Fin 2]] \<and>
   compare_data unit_fit
      [[Fin 0, Fin 1, Fin 2, Fin 3], [Fin 2, Fin 2, Fin 2, Fin 2]]
      [[Fin 0, Fin 1, Fin 2, Fin 3], [Fin 1, Fin 1, Fin 1, Fin 1]]
      [(1, 1)] False = Inr [Fin 50] \<and>
   guarded_objective unit_spline
      [[Fin 0, Fin 1, Fin 2, Fin 3], [Fin 2, Fin 2, Fin 2, Fin 2]] False 1 = Fin 50"
proof -
  let ?X = "[[Fin 0, Fin 1, Fin 2, Fin 3], [Fin 2, Fin 2, Fin 2, Fin 2]]"
  let ?S = "[[Fin 0, Fin 1, Fin 2, Fin 3], [Fin 1, Fin 1, Fin 1, Fin 1]]"
  have shape: "has_shape 2 4 ?X" by (simp add: has_shape_def)
  have run: "compare_data unit_fit ?X ?S [(1, 1)] False = Inr [Fin 50]"
    by (simp add: compare_data_def compare_pair_def unit_fit_def unit_spline_def splev_def
        fsub_def fsum_def clamp_term_def)
  have "\<exists>tck. unit_fit (?S ! 0) (?S ! snd ([(1::nat, 1::nat)] ! 0)) = Inr tck \<and>
          [Fin 50] ! 0 = guarded_objective tck ?X False (fst ([(1::nat, 1::nat)] ! 0))"
    using compare_data_guarded_objective [OF shape run] by simp
  then have "guarded_objective unit_spline ?X False 1 = Fin 50"
    by (simp add: unit_fit_def)
  then show ?thesis using shape run by simp
qed


text \<open>
  C5 as stated, without the guard, fails where a variance is zero: against an
  experimental row of zeros with \<open>vardata = False\<close> each of the four terms is
  \<open>1 / 0\<close>, so the stated sum is infinite, and the code returns \<^verbatim>\<open>4e-100\<close>.
\<close>

theorem compare_data_unguarded_counterexample:
  "compare_data unit_fit
      [[Fin 0, Fin 1, Fin 2, Fin 3], [Fin 0, Fin 0, Fin 0, Fin 0]]
      [[Fin 0, Fin 1, Fin 2, Fin 3], [Fin 1, Fin 1, Fin 1, Fin 1]]
      [(1, 1)] False = Inr [Fin (4 / 10 ^ 100)] \<and>
   spec_objective unit_spline
      [[Fin 0, Fin 1, Fin 2, Fin 3], [Fin 0, Fin 0, Fin 0, Fin 0]] False 1 = PInf"
  by (simp add: compare_data_def compare_pair_def unit_fit_def unit_spline_def splev_def
      fsub_def fsum_def clamp_term_def clamp_const_def inf_of_sign_def
      spec_objective_def spec_term_def spec_variance_def ncols_def upt_rec)




section \<open>Properties of getvarsens\<close>

lemma mmul_shape:
  "has_shape n m A \<Longrightarrow> has_shape n m B \<Longrightarrow> has_shape n m (mmul A B)"
  by (auto simp: has_shape_def mmul_def list_all_length)

lemma column_mmul:
  assumes "has_shape n m A" and "has_shape n m B" and "j < m"
  shows "column (mmul A B) j = map2 fmul (column A j) (column B j)"
  using assms by (auto simp: has_shape_def mmul_def column_def list_all_length list_eq_iff_nth_eq)

lemma sum_axis0_nth:
  "has_shape n m M \<Longrightarrow> 0 < n \<Longrightarrow> j < m \<Longrightarrow> sum_axis0 M ! j = fsum (column M j)"
  by (simp add: sum_axis0_def has_shape_ncols)

lemma sum_axis0_length: "has_shape n m M \<Longrightarrow> 0 < n \<Longrightarrow> length (sum_axis0 M) = m"
  by (simp add: sum_axis0_def has_shape_ncols)

lemma column_length: "has_shape n m M \<Longrightarrow> length (column M j) = n"
  by (simp add: column_def has_shape_def)

lemma average_axis0_nth:
  "has_shape n m M \<Longrightarrow> 0 < n \<Longrightarrow> j < m \<Longrightarrow> average_axis0 M ! j = mean (column M j)"
  by (simp add: average_axis0_def sum_axis0_nth sum_axis0_length mean_def column_length)
     (simp add: has_shape_def)

lemma average_axis0_length: "has_shape n m M \<Longrightarrow> 0 < n \<Longrightarrow> length (average_axis0 M) = m"
  by (simp add: average_axis0_def sum_axis0_length)

lemma var_axis0_length: "has_shape n m M \<Longrightarrow> 0 < n \<Longrightarrow> length (var_axis0 1 M) = m"
proof -
  assume M: "has_shape n m M" and n: "0 < n"
  let ?x = "map (\<lambda>r. map2 fsub r (average_axis0 M)) M"
  have x: "has_shape n m ?x"
    using M average_axis0_length [OF M n] by (auto simp: has_shape_def list_all_length)
  show ?thesis
    using sum_axis0_length [OF mmul_shape [OF x x] n] by (simp add: var_axis0_def Let_def)
qed

lemma var_axis0_nth:
  assumes M: "has_shape n m M" and n: "2 \<le> n" and j: "j < m"
  shows "var_axis0 1 M ! j = bessel_var (column M j)"
proof -
  have n0: "0 < n" using n by simp
  let ?mu = "average_axis0 M"
  let ?x = "map (\<lambda>r. map2 fsub r ?mu) M"
  have lmu: "length ?mu = m" using M n0 by (rule average_axis0_length)
  have x: "has_shape n m ?x"
    using M lmu by (auto simp: has_shape_def list_all_length)
  have xx: "has_shape n m (mmul ?x ?x)" using x x by (rule mmul_shape)
  have lenM: "length M = n" using M by (simp add: has_shape_def)
  have rows: "\<And>i. i < n \<Longrightarrow> length (M ! i) = m" using M by (simp add: has_shape_nth)
  have colx: "column ?x j = map (\<lambda>v. fsub v (mean (column M j))) (column M j)"
    using j lenM rows lmu average_axis0_nth [OF M n0 j]
    by (auto simp: column_def list_eq_iff_nth_eq)
  have col: "column (mmul ?x ?x) j
     = map (\<lambda>v. fmul (fsub v (mean (column M j))) (fsub v (mean (column M j)))) (column M j)"
    unfolding column_mmul [OF x x j] colx
    by (auto simp: list_eq_iff_nth_eq)
  have "real (n - 1) = real n - 1" using n by (simp add: of_nat_diff)
  then show ?thesis
    using j sum_axis0_nth [OF xx n0 j] sum_axis0_length [OF xx n0] lenM
    by (simp add: var_axis0_def Let_def col bessel_var_def column_length [OF M])
qed

lemma sens_row:
  assumes A: "has_shape n m yA" and B: "has_shape n m yB" and C: "has_shape n m c"
    and n: "2 \<le> n" and j: "j < m"
  shows "map2 fdiv
           (map2 fsub
              (map (\<lambda>s. fdiv s (Fin (real n - 1))) (sum_axis0 (mmul yA c)))
              (average_axis0 (mmul yA yB)))
           (var_axis0 1 yA) ! j
         = spec_S (column yA j) (column yB j) (column c j)"
proof -
  have n0: "0 < n" using n by simp
  have ac: "has_shape n m (mmul yA c)" using A C by (rule mmul_shape)
  have ab: "has_shape n m (mmul yA yB)" using A B by (rule mmul_shape)
  show ?thesis
    using j sum_axis0_length [OF ac n0] average_axis0_length [OF ab n0]
      var_axis0_length [OF A n0]
    by (simp add: spec_S_def sum_axis0_nth [OF ac n0 j] average_axis0_nth [OF ab n0 j]
        var_axis0_nth [OF A n j, unfolded One_nat_def] column_mmul [OF A C j] column_mmul [OF A B j]
        column_length [OF A])
qed

lemma sensT_row:
  assumes B: "has_shape n m yB" and C: "has_shape n m c"
    and n: "2 \<le> n" and j: "j < m"
  shows "map (fsub (Fin 1))
           (map2 fdiv
              (map2 fsub
                 (map (\<lambda>s. fdiv s (Fin (real n - 1))) (sum_axis0 (mmul yB c)))
                 (map (\<lambda>x. fpow x (Fin 2)) (average_axis0 yB)))
              (var_axis0 1 yB)) ! j
         = spec_ST (column yB j) (column c j)"
proof -
  have n0: "0 < n" using n by simp
  have bc: "has_shape n m (mmul yB c)" using B C by (rule mmul_shape)
  show ?thesis
    using j sum_axis0_length [OF bc n0] average_axis0_length [OF B n0]
      var_axis0_length [OF B n0]
    by (simp add: spec_ST_def sum_axis0_nth [OF bc n0 j] average_axis0_nth [OF B n0 j]
        var_axis0_nth [OF B n j, unfolded One_nat_def] column_mmul [OF B C j] column_length [OF B])
qed

lemma sens_row_length:
  assumes A: "has_shape n m yA" and B: "has_shape n m yB" and C: "has_shape n m c"
    and n: "0 < n"
  shows "length (map2 fdiv
           (map2 fsub
              (map (\<lambda>s. fdiv s (Fin (real n - 1))) (sum_axis0 (mmul yA c)))
              (average_axis0 (mmul yA yB)))
           (var_axis0 1 yA)) = m"
  using sum_axis0_length [OF mmul_shape [OF A C] n]
    average_axis0_length [OF mmul_shape [OF A B] n] var_axis0_length [OF A n]
  by simp

lemma sensT_row_length:
  assumes B: "has_shape n m yB" and C: "has_shape n m c" and n: "0 < n"
  shows "length (map (fsub (Fin 1))
           (map2 fdiv
              (map2 fsub
                 (map (\<lambda>s. fdiv s (Fin (real n - 1))) (sum_axis0 (mmul yB c)))
                 (map (\<lambda>x. fpow x (Fin 2)) (average_axis0 yB)))
              (var_axis0 1 yB))) = m"
  using sum_axis0_length [OF mmul_shape [OF B C] n]
    average_axis0_length [OF B n] var_axis0_length [OF B n]
  by simp

text \<open>
  C2. For \<open>yA\<close> and \<open>yB\<close> of shape \<open>(n, m)\<close> with \<open>n \<ge> 2\<close> and \<open>yC\<close> of shape \<open>(p, n, m)\<close>,
  \<open>getvarsens\<close> returns \<open>(S, ST)\<close> of shape \<open>(p, m)\<close> where, per observable column,
  \<open>S[k] = (sum(yA * yC[k]) / (n - 1) - mean(yA * yB)) / var(yA)\<close> and
  \<open>ST[k] = 1 - (sum(yB * yC[k]) / (n - 1) - mean(yB)\<^sup>2) / var(yB)\<close>, the sums, means and
  variances running over the samples and the variance being the one with Bessel's
  correction: of \<open>yA\<close> for \<open>S\<close>, of \<open>yB\<close> for \<open>ST\<close>.
\<close>

theorem getvarsens_estimator:
  assumes A: "has_shape n m yA" and B: "has_shape n m yB"
    and C: "length yC = p" "list_all (has_shape n m) yC"
    and n: "2 \<le> n"
  shows "has_shape p m (fst (getvarsens yA yB yC)) \<and>
         has_shape p m (snd (getvarsens yA yB yC)) \<and>
         (\<forall>k<p. \<forall>j<m.
            fst (getvarsens yA yB yC) ! k ! j
              = spec_S (column yA j) (column yB j) (column (yC ! k) j) \<and>
            snd (getvarsens yA yB yC) ! k ! j
              = spec_ST (column yB j) (column (yC ! k) j))"
proof -
  have n0: "0 < n" using n by simp
  have Ck: "has_shape n m (yC ! k)" if "k < p" for k
    using C that by (simp add: list_all_length)
  have ns: "(case yC of [] \<Rightarrow> 0 | c # _ \<Rightarrow> length c) = n" if "0 < p"
  proof -
    from that C(1) obtain c cs where yC: "yC = c # cs" by (cases yC) auto
    then have "has_shape n m c" using Ck [of 0] that by simp
    then show ?thesis using yC by (simp add: has_shape_def)
  qed
  have S: "fst (getvarsens yA yB yC) ! k =
      map2 fdiv
        (map2 fsub
           (map (\<lambda>s. fdiv s (Fin (real n - 1))) (sum_axis0 (mmul yA (yC ! k))))
           (average_axis0 (mmul yA yB)))
        (var_axis0 1 yA)" if "k < p" for k
    using that C(1) ns by (simp add: getvarsens_def Let_def)
  have ST: "snd (getvarsens yA yB yC) ! k =
      map (fsub (Fin 1))
        (map2 fdiv
           (map2 fsub
              (map (\<lambda>s. fdiv s (Fin (real n - 1))) (sum_axis0 (mmul yB (yC ! k))))
              (map (\<lambda>x. fpow x (Fin 2)) (average_axis0 yB)))
           (var_axis0 1 yB))" if "k < p" for k
    using that C(1) ns by (simp add: getvarsens_def Let_def)
  have lenS: "length (fst (getvarsens yA yB yC)) = p"
    and lenST: "length (snd (getvarsens yA yB yC)) = p"
    using C(1) by (simp_all add: getvarsens_def Let_def)
  have shS: "has_shape p m (fst (getvarsens yA yB yC))"
    unfolding has_shape_def list_all_length
    using lenS S sens_row_length [OF A B Ck n0] by simp
  have shST: "has_shape p m (snd (getvarsens yA yB yC))"
    unfolding has_shape_def list_all_length
    using lenST ST sensT_row_length [OF B Ck n0] by simp
  have ent: "fst (getvarsens yA yB yC) ! k ! j
              = spec_S (column yA j) (column yB j) (column (yC ! k) j) \<and>
            snd (getvarsens yA yB yC) ! k ! j
              = spec_ST (column yB j) (column (yC ! k) j)"
    if k: "k < p" and j: "j < m" for k j
    using S [OF k] ST [OF k] sens_row [OF A B Ck [OF k] n j] sensT_row [OF B Ck [OF k] n j]
    by simp
  show ?thesis using shS shST ent by blast
qed


theorem getvarsens_estimator_witness:
  "has_shape 2 1 [[Fin 1], [Fin 3]] \<and> has_shape 2 1 [[Fin 2], [Fin 4]] \<and>
   list_all (has_shape 2 1) [[[Fin 2], [Fin 2]]] \<and>
   fst (getvarsens [[Fin 1], [Fin 3]] [[Fin 2], [Fin 4]] [[[Fin 2], [Fin 2]]]) ! 0 ! 0 = Fin (1 / 2) \<and>
   snd (getvarsens [[Fin 1], [Fin 3]] [[Fin 2], [Fin 4]] [[[Fin 2], [Fin 2]]]) ! 0 ! 0 = Fin (- 1 / 2)"
proof -
  let ?A = "[[Fin 1], [Fin 3]]" and ?B = "[[Fin 2], [Fin 4]]" and ?C = "[[[Fin 2], [Fin 2]]]"
  have A: "has_shape 2 1 ?A" and B: "has_shape 2 1 ?B" by (simp_all add: has_shape_def)
  have C: "length ?C = 1" "list_all (has_shape 2 1) ?C" by (simp_all add: has_shape_def)
  have s: "spec_S (column ?A 0) (column ?B 0) (column (?C ! 0) 0) = Fin (1 / 2)"
    by (simp add: spec_S_def column_def mean_def bessel_var_def fsum_def fsub_def)
  have st: "spec_ST (column ?B 0) (column (?C ! 0) 0) = Fin (- 1 / 2)"
    by (simp add: spec_ST_def column_def mean_def bessel_var_def fsum_def fsub_def is_int_def)
  show ?thesis
    using getvarsens_estimator [OF A B C, of ] A B C(2) s st by simp
qed

section \<open>Properties of getlog\<close>














section \<open>Properties of writetofile\<close>

declare chunks.simps [simp del]
declare str_nat.simps [simp del]

lemma emit_upt:
  "concat (map (\<lambda>i. f i @ sep k n i) [a..<a + m]) = emit k n a (map f [a..<a + m])"
proof (induction m arbitrary: a)
  case 0
  show ?case by simp
next
  case (Suc m)
  have "[a..<a + Suc m] = a # [Suc a..<Suc a + m]" by (simp add: upt_rec)
  then show ?case using Suc [of "Suc a"] by simp
qed

lemma write_values_emit:
  "length xs = n \<Longrightarrow> write_values fmt k n xs = emit k n 0 (map fmt xs)"
proof -
  assume n: "length xs = n"
  have "map (\<lambda>i. fmt (xs ! i)) [0..<n] = map fmt xs"
    using n by (auto simp: list_eq_iff_nth_eq)
  then show ?thesis
    using emit_upt [of "\<lambda>i. fmt (xs ! i)" k n 0 n] by (simp add: write_values_def)
qed

lemma emit_line:
  assumes "vs \<noteq> []"
    and "\<forall>j. j + 1 < length vs \<longrightarrow> sep k n (i + j) = '', ''"
    and "sep k n (i + length vs - 1) = nl"
  shows "emit k n i (vs @ rest) = line vs @ emit k n (i + length vs) rest"
  using assms
proof (induction vs arbitrary: i rule: join.induct)
  case 1
  then show ?case by simp
next
  case (2 v)
  then show ?case by (simp add: line_def)
next
  case (3 v w vs)
  have s0: "sep k n i = '', ''" using "3.prems"(2) [rule_format, of 0] by simp
  have "\<forall>j. j + 1 < length (w # vs) \<longrightarrow> sep k n (Suc i + j) = '', ''"
    using "3.prems"(2) by (auto dest: spec [of _ "Suc j" for j])
  moreover have "sep k n (Suc i + length (w # vs) - 1) = nl"
    using "3.prems"(3) by simp
  ultimately have "emit k n (Suc i) ((w # vs) @ rest)
      = line (w # vs) @ emit k n (Suc i + length (w # vs)) rest"
    using "3.IH" [of "Suc i"] by simp
  then show ?case using s0 by (simp add: line_def)
qed

lemma sep_inside:
  assumes k: "0 < k" and j: "j + 1 < k" and n: "c * k + 1 + j \<noteq> n - 1"
  shows "sep k n (c * k + 1 + j) = '', ''"
proof -
  have "(c * k + 1 + j) mod k = (1 + j) mod k"
    by (metis add.assoc mod_mult_self3)
  also have "\<dots> = 1 + j" using j by simp
  finally show ?thesis using n by (simp add: sep_def)
qed

lemma sep_multiple: "0 < k \<Longrightarrow> sep k n (Suc c * k) = nl"
  by (simp add: sep_def)

lemma sep_last: "sep k n (n - 1) = nl"
  by (simp add: sep_def)

lemma emit_chunks:
  "0 < k \<Longrightarrow> n = c * k + 1 + length vs \<Longrightarrow> emit k n (c * k + 1) vs = wrapped_every k vs"
proof (induction k vs arbitrary: c rule: chunks.induct)
  case (1 k vs)
  show ?case
  proof (cases "vs = []")
    case True
    then show ?thesis by (simp add: wrapped_every_def chunks.simps)
  next
    case False
    let ?h = "take k vs" and ?t = "drop k vs"
    have k: "0 < k" and n: "n = c * k + 1 + length vs" using "1.prems" by simp_all
    have h: "?h \<noteq> []" using False k by simp
    have lh: "length ?h = min (length vs) k" by simp
    have inside: "\<forall>j. j + 1 < length ?h \<longrightarrow> sep k n (c * k + 1 + j) = '', ''"
    proof (intro allI impI)
      fix j assume j: "j + 1 < length ?h"
      then have "j + 1 < k" "j + 1 < length vs" by simp_all
      then show "sep k n (c * k + 1 + j) = '', ''"
        using sep_inside [OF k, of j c n] n by simp
    qed
    have last: "sep k n (c * k + 1 + length ?h - 1) = nl"
    proof (cases "k \<le> length vs")
      case True
      then have "c * k + 1 + length ?h - 1 = Suc c * k" by simp
      then show ?thesis using sep_multiple [OF k, of n c] by (simp only:)
    next
      case False
      then have "c * k + 1 + length ?h - 1 = n - 1" using n by simp
      then show ?thesis using sep_last by simp
    qed
    have split: "emit k n (c * k + 1) (?h @ ?t) = line ?h @ emit k n (c * k + 1 + length ?h) ?t"
      using emit_line [OF h inside last] .
    have rest: "emit k n (c * k + 1 + length ?h) ?t = wrapped_every k ?t"
    proof (cases "?t = []")
      case True
      then show ?thesis by (simp add: wrapped_every_def chunks.simps)
    next
      case nonempty: False
      then have full: "length ?h = k" by simp
      have "n = Suc c * k + 1 + length ?t" using n nonempty by simp
      then have "emit k n (Suc c * k + 1) ?t = wrapped_every k ?t"
        using "1.IH" [of "Suc c"] False k by simp
      then show ?thesis using full by (simp add: add.commute add.left_commute)
    qed
    have "wrapped_every k vs = line ?h @ wrapped_every k ?t"
      using False k by (subst wrapped_every_def, subst chunks.simps) (simp add: wrapped_every_def)
    then show ?thesis using split rest by simp
  qed
qed

lemma emit_first:
  assumes k: "0 < k" and vs: "vs \<noteq> []" and n: "n = length vs"
  shows "emit k n 0 vs = wrapped_after_multiples k vs"
proof -
  let ?h = "take (Suc k) vs" and ?t = "drop (Suc k) vs"
  have h: "?h \<noteq> []" using vs by simp
  have inside: "\<forall>j. j + 1 < length ?h \<longrightarrow> sep k n (0 + j) = '', ''"
  proof (intro allI impI)
    fix j assume j: "j + 1 < length ?h"
    then have "j < k" "j + 1 < length vs" by simp_all
    then show "sep k n (0 + j) = '', ''" using n by (auto simp: sep_def)
  qed
  have last: "sep k n (0 + length ?h - 1) = nl"
  proof (cases "Suc k \<le> length vs")
    case True
    then have "0 + length ?h - 1 = k" by simp
    then show ?thesis using k by (simp add: sep_def)
  next
    case False
    then have "0 + length ?h - 1 = n - 1" using n by simp
    then show ?thesis using sep_last by simp
  qed
  have split: "emit k n 0 (?h @ ?t) = line ?h @ emit k n (0 + length ?h) ?t"
    using emit_line [OF h inside last] .
  have rest: "emit k n (0 + length ?h) ?t = wrapped_every k ?t"
  proof (cases "?t = []")
    case True
    then show ?thesis by (simp add: wrapped_every_def chunks.simps)
  next
    case False
    then have full: "length ?h = Suc k" by simp
    have "n = 1 * k + 1 + length ?t" using n False by simp
    then have "emit k n (1 * k + 1) ?t = wrapped_every k ?t"
      using emit_chunks [OF k, of n 1 ?t] by simp
    then show ?thesis using full by simp
  qed
  show ?thesis using split rest vs by (simp add: wrapped_after_multiples_def)
qed

lemma write_values_layout:
  assumes "0 < k" and "length xs = n"
  shows "write_values fmt k n xs = wrapped_after_multiples k (map fmt xs)"
proof (cases "xs = []")
  case True
  then show ?thesis using assms by (simp add: write_values_def wrapped_after_multiples_def)
next
  case False
  then show ?thesis
    using emit_first [OF assms(1), of "map fmt xs" n] assms(2) write_values_emit [OF assms(2)]
    by simp
qed

text \<open>
  C9 (as amended). \<open>writetofile\<close> emits the \<^verbatim>\<open># TEMPERATURE\<close> header and the temperature,
  the \<^verbatim>\<open># PARAMETERS (n)\<close> header, the parameter values comma-separated with a line break
  after every value whose index is a positive multiple of 5 (six values on the first
  line, five on each later one), the \<^verbatim>\<open># SIMDATA (rows,cols)\<close> header, then for each row a
  \<^verbatim>\<open># <row index>\<close> marker line and the row comma-separated with a line break after every
  value whose index is a positive multiple of 10 (eleven values on the first line, ten
  on each later one), and a closing line of dashes.
\<close>

theorem writetofile_layout:
  assumes "has_shape (length simdata) (ncols simdata) simdata"
  shows "writetofile fmt_t fmt simparms simdata temperature =
     ''# TEMPERATURE'' @ nl @ fmt_t temperature @ nl @
     ''# PARAMETERS ('' @ str_nat (length simparms) @ '')'' @ nl @
     wrapped_after_multiples 5 (map fmt simparms) @
     ''# SIMDATA ('' @ str_nat (length simdata) @ '','' @ str_nat (ncols simdata) @ '')'' @ nl @
     concat (map (\<lambda>i. ''# '' @ str_nat i @ nl @
                       wrapped_after_multiples 10 (map fmt (simdata ! i)))
                 [0..<length simdata]) @
     separator"
proof -
  have params: "write_values fmt 5 (length simparms) simparms
      = wrapped_after_multiples 5 (map fmt simparms)"
    by (rule write_values_layout) simp_all
  have row: "write_values fmt 10 (ncols simdata) (simdata ! i)
      = wrapped_after_multiples 10 (map fmt (simdata ! i))" if "i < length simdata" for i
    using that assms by (intro write_values_layout) (simp_all add: has_shape_nth)
  have rows: "map (\<lambda>i. ''# '' @ str_nat i @ nl @ write_values fmt 10 (ncols simdata) (simdata ! i))
                [0..<length simdata]
      = map (\<lambda>i. ''# '' @ str_nat i @ nl @ wrapped_after_multiples 10 (map fmt (simdata ! i)))
                [0..<length simdata]"
    using row by simp
  show ?thesis
    unfolding writetofile_def Let_def params rows ..
qed


theorem writetofile_layout_witness:
  "has_shape 1 12 [[1, 2, 3, 4, 5, 6, 7, 8, 9, 10, 11, 12 :: nat]] \<and>
   writetofile str_nat str_nat [1, 2, 3, 4, 5, 6, 7]
       [[1, 2, 3, 4, 5, 6, 7, 8, 9, 10, 11, 12]] 3 =
     ''# TEMPERATURE'' @ nl @ ''3'' @ nl @
     ''# PARAMETERS (7)'' @ nl @
     ''1, 2, 3, 4, 5, 6'' @ nl @ ''7'' @ nl @
     ''# SIMDATA (1,12)'' @ nl @
     ''# 0'' @ nl @
     ''1, 2, 3, 4, 5, 6, 7, 8, 9, 10, 11'' @ nl @ ''12'' @ nl @
     separator"
proof -
  let ?D = "[[1, 2, 3, 4, 5, 6, 7, 8, 9, 10, 11, 12 :: nat]]"
  have shape: "has_shape 1 12 ?D" by (simp add: has_shape_def)
  have shape': "has_shape (length ?D) (ncols ?D) ?D" by (simp add: ncols_def has_shape_def)
  let ?P = "[1, 2, 3, 4, 5, 6, 7 :: nat]"
  have run: "writetofile str_nat str_nat ?P ?D 3 =
     ''# TEMPERATURE'' @ nl @ str_nat 3 @ nl @
     ''# PARAMETERS ('' @ str_nat (length ?P) @ '')'' @ nl @
     wrapped_after_multiples 5 (map str_nat ?P) @
     ''# SIMDATA ('' @ str_nat (length ?D) @ '','' @ str_nat (ncols ?D) @ '')'' @ nl @
     concat (map (\<lambda>i. ''# '' @ str_nat i @ nl @
                       wrapped_after_multiples 10 (map str_nat (?D ! i)))
                 [0..<length ?D]) @
     separator"
    by (rule writetofile_layout [OF shape'])
  also have "\<dots> =
     ''# TEMPERATURE'' @ nl @ ''3'' @ nl @
     ''# PARAMETERS (7)'' @ nl @
     ''1, 2, 3, 4, 5, 6'' @ nl @ ''7'' @ nl @
     ''# SIMDATA (1,12)'' @ nl @
     ''# 0'' @ nl @
     ''1, 2, 3, 4, 5, 6, 7, 8, 9, 10, 11'' @ nl @ ''12'' @ nl @
     separator"
    by code_simp
  finally have "writetofile str_nat str_nat ?P ?D 3 =
     ''# TEMPERATURE'' @ nl @ ''3'' @ nl @
     ''# PARAMETERS (7)'' @ nl @
     ''1, 2, 3, 4, 5, 6'' @ nl @ ''7'' @ nl @
     ''# SIMDATA (1,12)'' @ nl @
     ''# 0'' @ nl @
     ''1, 2, 3, 4, 5, 6, 7, 8, 9, 10, 11'' @ nl @ ''12'' @ nl @
     separator" .
  with shape show ?thesis by (rule conjI)
qed

text \<open>
  C9 as stated, with the values wrapped every 5, fails at six parameters: they are
  written on one line, where a wrap every 5 values breaks the line after the fifth.
\<close>

theorem writetofile_wrap_counterexample:
  "writetofile str_nat str_nat [1, 2, 3, 4, 5, 6] [] 0 =
     ''# TEMPERATURE'' @ nl @ ''0'' @ nl @
     ''# PARAMETERS (6)'' @ nl @
     ''1, 2, 3, 4, 5, 6'' @ nl @
     ''# SIMDATA (0,0)'' @ nl @ separator \<and>
   wrapped_every 5 (map str_nat [1, 2, 3, 4, 5, 6]) = ''1, 2, 3, 4, 5'' @ nl @ ''6'' @ nl"
  by code_simp

section \<open>Properties of the parameter buffer\<close>

lemma filter_rev_upto_head:
  assumes "a \<le> e" and "e \<le> b" and "P e" and "\<forall>e'. e < e' \<and> e' \<le> b \<longrightarrow> \<not> P e'"
  shows "filter P (rev [a..b]) = e # filter P (rev [a..e - 1])"
proof -
  have "[a..b] = [a..e] @ [e + 1..b]" using assms(1,2) by (rule upto_split2)
  moreover have "[a..e] = [a..e - 1] @ [e]" using assms(1) by (rule upto_rec2)
  moreover have "filter P (rev [e + 1..b]) = []"
    using assms(4) by (auto simp: filter_empty_conv)
  ultimately show ?thesis using assms(3) by simp
qed

lemma float32_exponent_eq:
  assumes "- 149 \<le> e" and "e \<le> 104"
    and lo: "2 ^ 23 * 2 powi e \<le> \<bar>x\<bar>" and hi: "\<bar>x\<bar> < 2 ^ 23 * 2 powi (e + 1)"
  shows "float32_exponent x = e"
proof -
  have "\<not> 2 ^ 23 * 2 powi e' \<le> \<bar>x\<bar>" if "e < e'" for e'
  proof -
    have "(2::real) powi (e + 1) \<le> 2 powi e'"
      using that by (intro power_int_increasing) simp_all
    then show ?thesis using hi by (simp add: not_le)
  qed
  then have "filter (\<lambda>e. 2 ^ 23 * 2 powi e \<le> \<bar>x\<bar>) (rev [- 149..104])
      = e # filter (\<lambda>e. 2 ^ 23 * 2 powi e \<le> \<bar>x\<bar>) (rev [- 149..e - 1])"
    using assms(1,2) lo by (intro filter_rev_upto_head) simp_all
  then show ?thesis by (simp add: float32_exponent_def)
qed



lemma c_float_tenth: "c_float (Fin (1 / 10)) = Fin (13421773 / 134217728)"
proof -
  have "float32_exponent (1 / 10) = - 27"
    by (rule float32_exponent_eq) (simp_all add: power_int_minus)
  then show ?thesis
    by (simp add: c_float_round_def round_half_even_def power_int_minus)
qed




lemma set_subset_succeeds:
  "\<forall>i \<in> set is. i < length params \<and> us ! i < length p \<Longrightarrow>
   \<exists>p'. set_subset params us is p = Inr p'"
  by (induction "is" arbitrary: p) auto


lemma odesolve_buffer:
  assumes "odesolve odeint mdl tfinal ev params useparams tinit ic = Inr (ev', sol)"
  shows "set_params params useparams (data_p ev) = Inr (data_p ev')"
  using assms by (auto simp: odesolve_def Let_def split: sum.splits if_splits)


lemma odeinit_growth: "odeinit [growth_rhs] growth_model 2 = Inr (growth_env, [Fin (1 / 10)])"
  by (simp add: odeinit_def growth_model_def growth_env_def c_float_tenth del: c_float.simps)

lemma linspace_unit: "linspace (Fin 0) (Fin 1) 2 = [Fin 0, Fin 1]"
  by (simp add: linspace_def fsub_def upt_rec numeral_2_eq_2)




lemma set_all_range:
  "set_all params is p = Inr p' \<Longrightarrow> \<forall>v \<in> set p. v \<in> range c_float \<Longrightarrow>
   \<forall>v \<in> set p'. v \<in> range c_float"
proof (induction "is" arbitrary: p)
  case Nil
  then show ?case by simp
next
  case (Cons i "is")
  from Cons.prems(1) have run: "set_all params is (p[i := c_float (params ! i)]) = Inr p'"
    by (simp split: if_splits)
  have "\<forall>v \<in> set (p[i := c_float (params ! i)]). v \<in> range c_float"
    using Cons.prems(2) set_update_subset_insert [of p i "c_float (params ! i)"] by auto
  then show ?case using Cons.IH [OF run] by simp
qed

lemma set_subset_range:
  "set_subset params us is p = Inr p' \<Longrightarrow> \<forall>v \<in> set p. v \<in> range c_float \<Longrightarrow>
   \<forall>v \<in> set p'. v \<in> range c_float"
proof (induction "is" arbitrary: p)
  case Nil
  then show ?case by simp
next
  case (Cons i "is")
  from Cons.prems(1)
  have run: "set_subset params us is (p[us ! i := c_float (params ! i)]) = Inr p'"
    by (simp split: if_splits)
  have "\<forall>v \<in> set (p[us ! i := c_float (params ! i)]). v \<in> range c_float"
    using Cons.prems(2) set_update_subset_insert [of p "us ! i" "c_float (params ! i)"] by auto
  then show ?case using Cons.IH [OF run] by simp
qed

lemma set_params_range:
  "set_params params useparams p = Inr p' \<Longrightarrow> \<forall>v \<in> set p. v \<in> range c_float \<Longrightarrow>
   \<forall>v \<in> set p'. v \<in> range c_float"
  by (cases useparams) (auto simp: set_params_def dest: set_all_range set_subset_range)

lemma odesolve_integrates:
  assumes "odesolve odeint mdl tfinal ev params useparams tinit ic
             = Inr (ev', (xyobs, xout, yout, yobs))"
  shows "odeint (f_rhs ev') (yzero ev') xout = Inr yout"
    and "rhs_exprs ev' = rhs_exprs ev"
  using assms by (auto simp: odesolve_def Let_def split: sum.splits if_splits)


lemma odesolve_growth_all:
  "odesolve euler_integrator growth_model (Fin 1) growth_env [Fin (1 / 10)] None (Fin 0) True
   = Inr (growth_env,
          ([[Fin 0, Fin 1], [Fin 0, Fin (13421773 / 134217728)]],
           [Fin 0, Fin 1],
           [[Fin 0], [Fin (13421773 / 134217728)]],
           [[Fin 0, Fin (13421773 / 134217728)]]))"
  by (simp add: odesolve_def set_params_def growth_model_def growth_env_def c_float_tenth
      linspace_unit euler_integrator_def f_rhs_def growth_rhs_def fsub_def fsum_def Let_def
      del: c_float.simps)


text \<open>
  C10. Every parameter value that the right-hand side evaluator reads is an entry of the
  \<^verbatim>\<open>c_float\<close> buffer: \<open>odeinit\<close> fills the buffer with the single-precision conversions
  of the model's parameter values, \<open>odesolve\<close> keeps every entry a single-precision
  value and integrates the right-hand side over the buffer it has updated, and the
  right-hand side evaluates the compiled expressions on that buffer.
\<close>

theorem rhs_reads_c_float:
  "(odeinit exprs mdl steps = Inr (ev0, paramarray) \<longrightarrow>
      data_p ev0 = map (\<lambda>p. c_float (snd p)) (parameters mdl)) \<and>
   (odesolve odeint mdl tfinal ev params useparams tinit ic
        = Inr (ev', (xyobs, xout, yout, yobs)) \<longrightarrow>
      (\<forall>v \<in> set (data_p ev). v \<in> range c_float) \<longrightarrow>
      (\<forall>v \<in> set (data_p ev'). v \<in> range c_float) \<and>
      odeint (f_rhs ev') (yzero ev') xout = Inr yout) \<and>
   f_rhs ev' y t = eval_exprs (rhs_exprs ev') y (data_p ev')"
proof -
  have init: "data_p ev0 = map (\<lambda>p. c_float (snd p)) (parameters mdl)"
    if "odeinit exprs mdl steps = Inr (ev0, paramarray)"
    using that by (auto simp: odeinit_def Let_def split: sum.splits)
  have solve: "(\<forall>v \<in> set (data_p ev'). v \<in> range c_float) \<and>
      odeint (f_rhs ev') (yzero ev') xout = Inr yout"
    if run: "odesolve odeint mdl tfinal ev params useparams tinit ic
        = Inr (ev', (xyobs, xout, yout, yobs))"
      and inv: "\<forall>v \<in> set (data_p ev). v \<in> range c_float"
    using set_params_range [OF odesolve_buffer [OF run] inv] odesolve_integrates(1) [OF run]
    by simp
  show ?thesis using init solve by (simp add: f_rhs_def)
qed

theorem rhs_reads_c_float_witness:
  "odeinit [growth_rhs] growth_model 2 = Inr (growth_env, [Fin (1 / 10)]) \<and>
   data_p growth_env = [Fin (13421773 / 134217728)] \<and>
   odesolve euler_integrator growth_model (Fin 1) growth_env [Fin (1 / 10)] None (Fin 0) True
     = Inr (growth_env,
          ([[Fin 0, Fin 1], [Fin 0, Fin (13421773 / 134217728)]],
           [Fin 0, Fin 1],
           [[Fin 0], [Fin (13421773 / 134217728)]],
           [[Fin 0, Fin (13421773 / 134217728)]])) \<and>
   euler_integrator (f_rhs growth_env) (yzero growth_env) [Fin 0, Fin 1]
     = Inr [[Fin 0], [Fin (13421773 / 134217728)]] \<and>
   f_rhs growth_env [Fin 0] (Fin 0) = Inr [Fin (13421773 / 134217728)]"
proof -
  note inst = rhs_reads_c_float [of "[growth_rhs]" growth_model 2 growth_env "[Fin (1 / 10)]"
      euler_integrator "Fin 1" growth_env "[Fin (1 / 10)]" None "Fin 0" True growth_env
      "[[Fin 0, Fin 1], [Fin 0, Fin (13421773 / 134217728)]]" "[Fin 0, Fin 1]"
      "[[Fin 0], [Fin (13421773 / 134217728)]]" "[[Fin 0, Fin (13421773 / 134217728)]]"
      "[Fin 0]" "Fin 0"]
  have inv: "\<forall>v \<in> set (data_p growth_env). v \<in> range c_float"
  proof -
    have "Fin (13421773 / 134217728) \<in> range c_float"
      using c_float_tenth [symmetric] by (rule range_eqI)
    then show ?thesis by (simp add: growth_env_def)
  qed
  have buf: "data_p growth_env = map (\<lambda>p. c_float (snd p)) (parameters growth_model)"
    using inst odeinit_growth by blast
  have integ: "euler_integrator (f_rhs growth_env) (yzero growth_env) [Fin 0, Fin 1]
      = Inr [[Fin 0], [Fin (13421773 / 134217728)]]"
    using inst odesolve_growth_all inv by blast
  have rhs: "f_rhs growth_env [Fin 0] (Fin 0)
      = eval_exprs (rhs_exprs growth_env) [Fin 0] (data_p growth_env)"
    using inst by blast
  have b: "data_p growth_env = [Fin (13421773 / 134217728)]"
    using buf by (simp add: growth_model_def c_float_tenth del: c_float.simps)
  have r: "f_rhs growth_env [Fin 0] (Fin 0) = Inr [Fin (13421773 / 134217728)]"
    unfolding rhs b by (simp add: growth_env_def growth_rhs_def)
  show ?thesis using odeinit_growth b odesolve_growth_all integ r by (intro conjI)
qed

section \<open>Properties of parmeval\<close>

lemma row_raw_A_unbound:
  "row_raw_A odeint splrep mdl time xpdata xspairlist ic vardata useparams st row = Inr (st', y)
   \<Longrightarrow> snd st' = snd st"
  by (auto simp: row_raw_A_def split: sum.splits prod.splits)

lemma rows_loop_raw_A_unbound:
  "rows_loop (row_raw_A odeint splrep mdl time xpdata xspairlist ic vardata useparams) st rows
     = Inr (st', ys) \<Longrightarrow> snd st' = snd st"
proof (induction rows arbitrary: st ys)
  case Nil
  then show ?case by simp
next
  case (Cons row rows)
  from Cons.prems obtain st1 y ys1 where
    b: "row_raw_A odeint splrep mdl time xpdata xspairlist ic vardata useparams st row = Inr (st1, y)"
    and r: "rows_loop (row_raw_A odeint splrep mdl time xpdata xspairlist ic vardata useparams) st1 rows
              = Inr (st', ys1)"
    by (auto split: sum.splits prod.splits)
  show ?case using Cons.IH [OF r] row_raw_A_unbound [OF b] by simp
qed

lemma row_raw_BC_unbound:
  "snd st = None \<Longrightarrow>
   \<exists>e. row_raw_BC odeint splrep mdl time xpdata xspairlist ic vardata useparams st row = Inl e"
  by (auto simp: row_raw_BC_def split: sum.splits prod.splits)

lemma row_raw_BC_NameError:
  "snd st = None \<Longrightarrow>
   odesolve odeint mdl time (fst st) row useparams (tinit_of_ic ic) True = Inr r \<Longrightarrow>
   row_raw_BC odeint splrep mdl time xpdata xspairlist ic vardata useparams st row
     = Inl (NameError ''outlistnorm'')"
  by (auto simp: row_raw_BC_def split: sum.splits prod.splits)







lemma linspace_one_two: "linspace (Fin 1) (Fin 2) 2 = [Fin 1, Fin 2]"
  by (simp add: linspace_def fsub_def upt_rec numeral_2_eq_2)

lemma odesolve_growth_run:
  "odesolve euler_integrator growth_model (Fin 2) growth_env [Fin (1 / 10)] None
     (tinit_of_ic True) True
   = Inr (growth_env,
          ([[Fin 1, Fin 2], [Fin 0, Fin (13421773 / 134217728)]],
           [Fin 1, Fin 2],
           [[Fin 0], [Fin (13421773 / 134217728)]],
           [[Fin 0, Fin (13421773 / 134217728)]]))"
  by (simp add: odesolve_def set_params_def growth_model_def growth_env_def c_float_tenth
      tinit_of_ic_def linspace_one_two euler_integrator_def f_rhs_def growth_rhs_def fsub_def
      fsum_def Let_def del: c_float.simps)

lemma minmax_norm_growth:
  "minmax_norm [[Fin 1, Fin 2], [Fin 0, Fin (13421773 / 134217728)]]
     = Inr [[Fin 1, Fin 2], [Fin 0, Fin 1]]"
  by (simp add: minmax_norm_def norm_row_def amax_def amin_def fmax_def fmin_def fsub_def)

lemma compare_growth:
  "compare_data unit_fit [[Fin 1, Fin 2], [Fin 2, Fin 2]] simarray [(Suc 0, Suc 0)] False
     = (if length simarray \<le> Suc 0 then Inl IndexError else Inr [Fin 25])"
  by (simp add: compare_data_def compare_pair_def unit_fit_def unit_spline_def splev_def
      fsub_def fsum_def clamp_term_def)

lemma row_norm_growth:
  "row_norm euler_integrator unit_fit growth_model (Fin 2) [[Fin 1, Fin 2], [Fin 2, Fin 2]]
     [(Suc 0, Suc 0)] True False None (growth_env, s) [Fin (1 / 10)]
   = Inr ((growth_env, Some [[Fin 1, Fin 2], [Fin 0, Fin 1]]), [Fin 25])"
  by (simp add: row_norm_def odesolve_growth_run minmax_norm_growth compare_growth assign_row_def)
     (simp add: growth_model_def)

lemma row_raw_A_growth:
  "row_raw_A euler_integrator unit_fit growth_model (Fin 2) [[Fin 1, Fin 2], [Fin 2, Fin 2]]
     [(Suc 0, Suc 0)] True False None (growth_env, s) [Fin (1 / 10)]
   = Inr ((growth_env, s), [Fin 25])"
  by (simp add: row_raw_A_def odesolve_growth_run compare_growth assign_row_def)
     (simp add: growth_model_def)

lemma parmeval_growth_norm:
  "parmeval euler_integrator unit_fit growth_model [[Fin (1 / 10)]] [[Fin (1 / 10)]]
     [[[Fin (1 / 10)]]] (Fin 2) growth_env [[Fin 1, Fin 2], [Fin 2, Fin 2]] [(1, 1)]
     True True False None False
   = Inr (growth_env, [[Fin 25]], [[Fin 25]], [[[Fin 25]]])"
  by (simp add: parmeval_def row_norm_growth Let_def)

lemma parmeval_growth_raw:
  "parmeval euler_integrator unit_fit growth_model [[Fin (1 / 10)]] [[Fin (1 / 10)]]
     [[[Fin (1 / 10)]]] (Fin 2) growth_env [[Fin 1, Fin 2], [Fin 2, Fin 2]] [(1, 1)]
     True False False None False
   = Inl (NameError ''outlistnorm'')"
  by (simp add: parmeval_def row_raw_A_growth row_raw_BC_def odesolve_growth_run Let_def)







text \<open>
  C3 fails on the code for \<open>norm = False\<close>: the loops over B and C compute the objective
  from \<^verbatim>\<open>outlistnorm\<close>, which this branch never assigns, where the loop over A uses
  \<^verbatim>\<open>outlist[0]\<close>. With at least one row in B, \<open>parmeval\<close> with \<open>norm = False\<close> never
  returns: it raises, and once A has been processed and the first row of B solved, what
  it raises is the NameError for \<^verbatim>\<open>outlistnorm\<close>. (For \<open>norm = True\<close> the three loops run
  the same statements, see C6.)
\<close>

theorem parmeval_raw_B_raises:
  assumes "sobmtxB \<noteq> []"
  shows "(\<exists>e. parmeval odeint splrep mdl sobmtxA sobmtxB sobmtxC time envlist xpdata xspairlist
               ic False vardata useparams fileobj = Inl e) \<and>
         (\<forall>st1 yA r.
            rows_loop (row_raw_A odeint splrep mdl time xpdata xspairlist ic vardata useparams)
              (envlist, None) sobmtxA = Inr (st1, yA) \<longrightarrow>
            odesolve odeint mdl time (fst st1) (sobmtxB ! 0) useparams (tinit_of_ic ic) True
              = Inr r \<longrightarrow>
            parmeval odeint splrep mdl sobmtxA sobmtxB sobmtxC time envlist xpdata xspairlist
              ic False vardata useparams fileobj = Inl (NameError ''outlistnorm''))"
proof -
  let ?A = "row_raw_A odeint splrep mdl time xpdata xspairlist ic vardata useparams"
  let ?BC = "row_raw_BC odeint splrep mdl time xpdata xspairlist ic vardata useparams"
  obtain b bs where B: "sobmtxB = b # bs" using assms by (cases sobmtxB) auto
  have unbound: "snd st1 = None" if "rows_loop ?A (envlist, None) sobmtxA = Inr (st1, yA)"
    for st1 yA
    using rows_loop_raw_A_unbound [OF that] by simp
  have raises: "\<exists>e. parmeval odeint splrep mdl sobmtxA sobmtxB sobmtxC time envlist xpdata
      xspairlist ic False vardata useparams fileobj = Inl e"
  proof (cases "rows_loop ?A (envlist, None) sobmtxA")
    case (Inl e)
    then show ?thesis by (simp add: parmeval_def)
  next
    case (Inr res)
    obtain st1 yA where res: "res = (st1, yA)" by (cases res)
    obtain e where "?BC st1 b = Inl e"
      using row_raw_BC_unbound [OF unbound] Inr res by blast
    then show ?thesis using Inr res B by (simp add: parmeval_def)
  qed
  have name: "parmeval odeint splrep mdl sobmtxA sobmtxB sobmtxC time envlist xpdata xspairlist
      ic False vardata useparams fileobj = Inl (NameError ''outlistnorm'')"
    if a: "rows_loop ?A (envlist, None) sobmtxA = Inr (st1, yA)"
      and s: "odesolve odeint mdl time (fst st1) (sobmtxB ! 0) useparams (tinit_of_ic ic) True
                = Inr r"
    for st1 yA r
  proof -
    have "?BC st1 b = Inl (NameError ''outlistnorm'')"
      using row_raw_BC_NameError [OF unbound [OF a]] s B by simp
    then show ?thesis using a B by (simp add: parmeval_def)
  qed
  show ?thesis using raises name by blast
qed

theorem parmeval_raw_B_raises_witness:
  "[[Fin (1 / 10)]] \<noteq> [] \<and>
   (\<exists>e. parmeval euler_integrator unit_fit growth_model [[Fin (1 / 10)]] [[Fin (1 / 10)]]
     [[[Fin (1 / 10)]]] (Fin 2) growth_env [[Fin 1, Fin 2], [Fin 2, Fin 2]] [(1, 1)]
     True False False None False = Inl e) \<and>
   parmeval euler_integrator unit_fit growth_model [[Fin (1 / 10)]] [[Fin (1 / 10)]]
     [[[Fin (1 / 10)]]] (Fin 2) growth_env [[Fin 1, Fin 2], [Fin 2, Fin 2]] [(1, 1)]
     True False False None False = Inl (NameError ''outlistnorm'') \<and>
   parmeval euler_integrator unit_fit growth_model [[Fin (1 / 10)]] [[Fin (1 / 10)]]
     [[[Fin (1 / 10)]]] (Fin 2) growth_env [[Fin 1, Fin 2], [Fin 2, Fin 2]] [(1, 1)]
     True True False None False = Inr (growth_env, [[Fin 25]], [[Fin 25]], [[[Fin 25]]])"
proof -
  have ne: "[[Fin (1 / 10)]] \<noteq> []" by simp
  have ex: "\<exists>e. parmeval euler_integrator unit_fit growth_model [[Fin (1 / 10)]] [[Fin (1 / 10)]]
     [[[Fin (1 / 10)]]] (Fin 2) growth_env [[Fin 1, Fin 2], [Fin 2, Fin 2]] [(1, 1)]
     True False False None False = Inl e"
    using parmeval_raw_B_raises [OF ne] by blast
  show ?thesis using ne ex parmeval_growth_raw parmeval_growth_norm by (intro conjI)
qed

end
